theory Spec2Isabelle
  imports Main "HOL-Library.Code_Target_Numeral"
begin

section \<open>Values of a parsed request body\<close>

text \<open>
  The handlers of the server read the fields of \<^verbatim>\<open>req.body\<close> without a schema, so a
  field can hold any JSON primitive or be absent. Numbers are the integers (amounts are
  minor currency units; a JavaScript number is exact on them below \<open>2^53\<close>, and how a
  larger one is printed is modelled with \<open>Number_toString\<close>), strings are their UTF-8
  bytes. Fields holding nested arrays or objects are outside this model.
\<close>

datatype jsval = JUndefined | JNull | JBool bool | JNum int | JStr string

text \<open>JavaScript truthiness: \<^verbatim>\<open>!x\<close> is \<open>\<not> truthy x\<close>.\<close>

fun truthy :: "jsval \<Rightarrow> bool" where
  "truthy JUndefined = False"
| "truthy JNull = False"
| "truthy (JBool b) = b"
| "truthy (JNum n) = (n \<noteq> 0)"
| "truthy (JStr s) = (s \<noteq> [])"

text \<open>\<^verbatim>\<open>typeof x\<close>.\<close>

fun typeof :: "jsval \<Rightarrow> string" where
  "typeof JUndefined = ''undefined''"
| "typeof JNull = ''object''"
| "typeof (JBool b) = ''boolean''"
| "typeof (JNum n) = ''number''"
| "typeof (JStr s) = ''string''"

section \<open>\<^verbatim>\<open>JSON.stringify\<close> on an object of primitives\<close>

definition digit_char :: "nat \<Rightarrow> char" where
  "digit_char n = ''0123456789'' ! n"

fun digits :: "nat \<Rightarrow> string" where
  "digits n = (if n < 10 then [digit_char n] else digits (n div 10) @ [digit_char (n mod 10)])"

declare digits.simps [simp del]

text \<open>
  \<^verbatim>\<open>Number::toString\<close>. A number of the body is a double, here an integer-valued one, and
  \<open>JNum n\<close> stands for the double nearest to \<open>n\<close> (round half to even, as \<^verbatim>\<open>JSON.parse\<close>
  reads the literal \<open>n\<close>). Below \<open>2^53\<close> every integer is a double and is printed with all
  its digits. From \<open>2^53\<close> on the double is \<open>m * 2^e\<close> with \<open>2^52 \<le> m < 2^53\<close>; the digits
  printed are the fewest that still read back as that double, the closest to it when
  several do, followed by zeros, and from \<open>10^21\<close> on in exponent form.
\<close>

fun bitlen :: "nat \<Rightarrow> nat" where
  "bitlen n = (if n = 0 then 0 else bitlen (n div 2) + 1)"

declare bitlen.simps [simp del]

text \<open>The number of decimal digits.\<close>

fun declen :: "nat \<Rightarrow> nat" where
  "declen n = (if n < 10 then 1 else declen (n div 10) + 1)"

declare declen.simps [simp del]

definition to_double :: "nat \<Rightarrow> nat \<times> nat" where
  "to_double n =
     (let shift = bitlen n - 53; q = n div 2 ^ shift; r = n mod 2 ^ shift;
          half = 2 ^ (shift - 1);
          q' = (if half < r \<or> (r = half \<and> odd q) then q + 1 else q)
      in if q' = 2 ^ 53 then (2 ^ 52, shift + 1) else (q', shift))"

text \<open>Beyond the largest double the number is \<^verbatim>\<open>Infinity\<close>.\<close>

definition finite_number :: "int \<Rightarrow> bool" where
  "finite_number i = (case to_double (nat \<bar>i\<bar>) of (m, e) \<Rightarrow> e + 53 \<le> 1024)"

text \<open>
  Whether the integer \<open>c\<close> reads back as the double \<open>m * 2^e\<close>: it lies between the
  midpoints to the two neighbouring doubles, the midpoints included when \<open>m\<close> is even.
  Everything is scaled by 4 to stay in the integers.
\<close>

definition reads_back :: "nat \<Rightarrow> nat \<Rightarrow> nat \<Rightarrow> bool" where
  "reads_back m e c =
     (let x4 = 4 * (m * 2 ^ e); hi = x4 + 2 * 2 ^ e;
          lo = (if m = 2 ^ 52 then x4 - 2 ^ e else x4 - 2 * 2 ^ e)
      in if even m then lo \<le> 4 * c \<and> 4 * c \<le> hi else lo < 4 * c \<and> 4 * c < hi)"

text \<open>The value printed with \<open>k\<close> significant digits, if one of that length reads back.\<close>

definition candidate :: "nat \<Rightarrow> nat \<Rightarrow> nat \<Rightarrow> nat option" where
  "candidate m e k =
     (let x = m * 2 ^ e; len = declen x
      in if len < k then Some x
         else
           (let unit = 10 ^ (len - k); c1 = (x div unit) * unit; c2 = c1 + unit
            in if reads_back m e c1 \<and> reads_back m e c2
               then (if x - c1 < c2 - x then Some c1
                     else if c2 - x < x - c1 then Some c2
                     else if even (c1 div unit) then Some c1 else Some c2)
               else if reads_back m e c1 then Some c1
               else if reads_back m e c2 then Some c2
               else None))"

fun first_candidate :: "nat \<Rightarrow> nat \<Rightarrow> nat list \<Rightarrow> nat" where
  "first_candidate m e [] = m * 2 ^ e"
| "first_candidate m e (k # ks) =
     (case candidate m e k of Some c \<Rightarrow> c | None \<Rightarrow> first_candidate m e ks)"

definition shortest :: "nat \<Rightarrow> nat \<Rightarrow> nat" where
  "shortest m e = first_candidate m e [1, 2, 3, 4, 5, 6, 7, 8, 9, 10, 11, 12, 13, 14, 15, 16, 17]"

definition strip_zeros :: "string \<Rightarrow> string" where
  "strip_zeros s = rev (dropWhile (\<lambda>c. c = CHR ''0'') (rev s))"

definition format_digits :: "nat \<Rightarrow> string" where
  "format_digits v =
     (if v < 10 ^ 21 then digits v
      else (case strip_zeros (digits v) of
              [] \<Rightarrow> []
            | d # ds \<Rightarrow>
                (if ds = [] then [d] else d # CHR ''.'' # ds)
                @ ''e+'' @ digits (declen v - 1)))"

definition Number_toString :: "int \<Rightarrow> string" where
  "Number_toString i =
     (let n = nat \<bar>i\<bar>;
          s = (if n < 2 ^ 53 then digits n
               else (case to_double n of
                       (m, e) \<Rightarrow> if 1024 < e + 53 then ''Infinity''
                                 else format_digits (shortest m e)))
      in if i < 0 then CHR ''-'' # s else s)"

text \<open>The integers that are doubles without rounding.\<close>

definition safe_integer :: "int \<Rightarrow> bool" where
  "safe_integer i \<longleftrightarrow> \<bar>i\<bar> < 2 ^ 53"

definition hex_digit :: "nat \<Rightarrow> char" where
  "hex_digit n = ''0123456789abcdef'' ! n"

text \<open>
  \<^verbatim>\<open>QuoteJSONString\<close>: the quote and the backslash are escaped, the control characters
  below \<open>0x20\<close> become their short escape or \<^verbatim>\<open>\u00XX\<close>, every other byte is kept.
\<close>

definition quote_char :: "char \<Rightarrow> string" where
  "quote_char c =
     (if c = CHR 0x22 then [CHR 0x5C, CHR 0x22]
      else if c = CHR 0x5C then [CHR 0x5C, CHR 0x5C]
      else if c = CHR 0x08 then [CHR 0x5C, CHR ''b'']
      else if c = CHR 0x09 then [CHR 0x5C, CHR ''t'']
      else if c = CHR 0x0A then [CHR 0x5C, CHR ''n'']
      else if c = CHR 0x0C then [CHR 0x5C, CHR ''f'']
      else if c = CHR 0x0D then [CHR 0x5C, CHR ''r'']
      else if (of_char c :: nat) < 32
        then [CHR 0x5C, CHR ''u'', CHR ''0'', CHR ''0'',
              hex_digit ((of_char c :: nat) div 16), hex_digit ((of_char c :: nat) mod 16)]
      else [c])"

definition quote :: "string \<Rightarrow> string" where
  "quote s = CHR 0x22 # concat (map quote_char s) @ [CHR 0x22]"

text \<open>
  A property whose value is \<^verbatim>\<open>undefined\<close> is left out of the object (\<open>None\<close>); a number
  that is not finite is written \<^verbatim>\<open>null\<close>.
\<close>

fun JSON_value :: "jsval \<Rightarrow> string option" where
  "JSON_value JUndefined = None"
| "JSON_value JNull = Some ''null''"
| "JSON_value (JBool b) = Some (if b then ''true'' else ''false'')"
| "JSON_value (JNum n) = Some (if finite_number n then Number_toString n else ''null'')"
| "JSON_value (JStr s) = Some (quote s)"

definition JSON_property :: "string \<Rightarrow> jsval \<Rightarrow> string list" where
  "JSON_property k x = (case JSON_value x of None \<Rightarrow> [] | Some s \<Rightarrow> [quote k @ '':'' @ s])"

fun join :: "string \<Rightarrow> string list \<Rightarrow> string" where
  "join sep [] = []"
| "join sep [x] = x"
| "join sep (x # y # ys) = x @ sep @ join sep (y # ys)"

section \<open>Vouchers, stored documents and the database\<close>

text \<open>The object \<^verbatim>\<open>payload\<close> that the handler rebuilds: the five signed fields.\<close>

record payload =
  voucherId :: jsval
  merchantId :: jsval
  amount :: jsval
  createdAt :: jsval
  issuedTo :: jsval

text \<open>An element \<^verbatim>\<open>v\<close> of \<^verbatim>\<open>req.body.vouchers\<close>.\<close>

record voucher = payload +
  signature :: jsval
  publicKeyHex :: jsval

text \<open>A document of the collection \<^verbatim>\<open>vouchers\<close>; \<open>status\<close> is always \<^verbatim>\<open>"synced"\<close>.\<close>

record voucher_doc = payload +
  doc_signature :: jsval
  status :: string
  syncedAt :: string

datatype entry_type = Add | Payment

text \<open>An element of \<^verbatim>\<open>balanceHistory\<close>; the payment context is absent on an \<^verbatim>\<open>add\<close>.\<close>

record history_entry =
  entry_type :: entry_type
  entry_amount :: int
  timestamp :: string
  previousBalance :: int
  newBalance :: int
  entry_merchantId :: jsval
  entry_voucherId :: jsval

text \<open>
  A document of the collection \<^verbatim>\<open>users\<close>. An auto-registered user has no \<^verbatim>\<open>balance\<close>
  field (\<open>None\<close>), and a missing \<^verbatim>\<open>balanceHistory\<close> is the empty list, which is what
  \<^verbatim>\<open>$push\<close> starts from.
\<close>

record user_doc =
  userId :: jsval
  user_publicKeyHex :: jsval
  registeredAt :: string
  balance :: "int option"
  balanceHistory :: "history_entry list"

record db =
  vouchers :: "voucher_doc list"
  users :: "user_doc list"

text \<open>\<^verbatim>\<open>collection.findOne({field: x})\<close>: the first document whose field equals \<open>x\<close>.\<close>

definition findVoucher :: "db \<Rightarrow> jsval \<Rightarrow> voucher_doc option" where
  "findVoucher st x = find (\<lambda>d. voucherId d = x) (vouchers st)"

definition findUser :: "db \<Rightarrow> jsval \<Rightarrow> user_doc option" where
  "findUser st x = find (\<lambda>u. userId u = x) (users st)"

text \<open>\<^verbatim>\<open>usersCollection.updateOne({userId}, ...)\<close>: the first matching document is changed.\<close>

fun updateOne :: "jsval \<Rightarrow> (user_doc \<Rightarrow> user_doc) \<Rightarrow> user_doc list \<Rightarrow> user_doc list" where
  "updateOne x f [] = []"
| "updateOne x f (u # us) = (if userId u = x then f u # us else u # updateOne x f us)"

section \<open>The cryptographic library\<close>

text \<open>
  \<^verbatim>\<open>crypto.createHash("sha256")\<close> and the \<^verbatim>\<open>elliptic\<close> curve object are libraries: they
  are parameters of the model. \<open>keyFromPublic\<close> and \<open>verify\<close> return \<open>None\<close> when the
  library throws.
\<close>

record 'k crypto =
  sha256 :: "string \<Rightarrow> string"
  keyFromPublic :: "jsval \<Rightarrow> 'k option"
  verify :: "'k \<Rightarrow> string \<Rightarrow> jsval \<Rightarrow> bool option"

section \<open>\<^verbatim>\<open>POST /api/vouchers/sync\<close>\<close>

definition invalidFormat :: "voucher \<Rightarrow> bool" where
  "invalidFormat v \<longleftrightarrow>
     \<not> truthy (voucherId v) \<or> \<not> truthy (merchantId v) \<or> typeof (amount v) \<noteq> ''number''
     \<or> \<not> truthy (signature v)"

text \<open>The key of the voucher itself, else the one stored for \<^verbatim>\<open>issuedTo\<close>.\<close>

definition userPubHex :: "db \<Rightarrow> voucher \<Rightarrow> jsval" where
  "userPubHex st v =
     (if truthy (publicKeyHex v) then publicKeyHex v
      else (case findUser st (issuedTo v) of None \<Rightarrow> JUndefined | Some user \<Rightarrow> user_publicKeyHex user))"

definition payload_of :: "voucher \<Rightarrow> payload" where
  "payload_of v =
     \<lparr>voucherId = voucherId v, merchantId = merchantId v, amount = amount v,
      createdAt = createdAt v, issuedTo = issuedTo v\<rparr>"

definition JSON_stringify :: "payload \<Rightarrow> string" where
  "JSON_stringify p =
     ''{'' @ join '',''
       (JSON_property ''voucherId'' (voucherId p) @ JSON_property ''merchantId'' (merchantId p)
        @ JSON_property ''amount'' (amount p) @ JSON_property ''createdAt'' (createdAt p)
        @ JSON_property ''issuedTo'' (issuedTo p)) @ ''}''"

definition msgHashHex :: "'k crypto \<Rightarrow> voucher \<Rightarrow> string" where
  "msgHashHex cr v = sha256 cr (JSON_stringify (payload_of v))"

text \<open>The \<^verbatim>\<open>try\<close> block: either call of the library may throw into the one \<^verbatim>\<open>catch\<close>.\<close>

datatype verdict = SignatureOk | BadSignature | VerifyError

definition verifyDER :: "'k crypto \<Rightarrow> jsval \<Rightarrow> string \<Rightarrow> jsval \<Rightarrow> verdict" where
  "verifyDER cr pub h sig =
     (case keyFromPublic cr pub of
        None \<Rightarrow> VerifyError
      | Some key \<Rightarrow>
          (case verify cr key h sig of
             None \<Rightarrow> VerifyError
           | Some signatureOk \<Rightarrow> if signatureOk then SignatureOk else BadSignature))"

definition autoRegister :: "string \<Rightarrow> db \<Rightarrow> jsval \<Rightarrow> jsval \<Rightarrow> db" where
  "autoRegister now st uid pub =
     (if findUser st uid = None \<and> truthy pub
      then st\<lparr>users := users st @
             [\<lparr>userId = uid, user_publicKeyHex = pub, registeredAt = now,
               balance = None, balanceHistory = []\<rparr>]\<rparr>
      else st)"

definition storeVoucher :: "string \<Rightarrow> jsval \<Rightarrow> db \<Rightarrow> voucher \<Rightarrow> db" where
  "storeVoucher now mid st v =
     st\<lparr>vouchers := vouchers st @
        [\<lparr>voucherId = voucherId v, merchantId = mid, amount = amount v,
          createdAt = createdAt v, issuedTo = issuedTo v,
          doc_signature = signature v, status = ''synced'', syncedAt = now\<rparr>]\<rparr>"

datatype outcome = Synced jsval | Rejected jsval string

text \<open>
  One iteration of the loop over \<^verbatim>\<open>vouchers\<close>, on an element that is not \<^verbatim>\<open>null\<close>; every
  \<^verbatim>\<open>continue\<close> is a branch. (An element that is a number, a string or a boolean has no
  property at all: it is the voucher with every field \<open>JUndefined\<close>.) The lookups and
  inserts of the collections succeed: a failure of the database is outside this model, and
  so is any request served in between by another handler.
\<close>

definition syncVoucher :: "'k crypto \<Rightarrow> string \<Rightarrow> jsval \<Rightarrow> db \<Rightarrow> voucher \<Rightarrow> outcome \<times> db" where
  "syncVoucher cr now mid st v =
     (if invalidFormat v then (Rejected (voucherId v) ''Invalid format'', st)
      else if merchantId v \<noteq> mid then (Rejected (voucherId v) ''Wrong merchantId'', st)
      else if \<not> truthy (issuedTo v) then (Rejected (voucherId v) ''Missing issuedTo'', st)
      else if \<not> truthy (userPubHex st v)
        then (Rejected (voucherId v) ''Missing public key in voucher'', st)
      else
        (case verifyDER cr (userPubHex st v) (msgHashHex cr v) (signature v) of
           BadSignature \<Rightarrow> (Rejected (voucherId v) ''Bad signature'', st)
         | VerifyError \<Rightarrow> (Rejected (voucherId v) ''Signature verify error'', st)
         | SignatureOk \<Rightarrow>
             (if findVoucher st (voucherId v) \<noteq> None
              then (Rejected (voucherId v) ''Duplicate voucherId'', st)
              else (Synced (voucherId v),
                    storeVoucher now mid (autoRegister now st (issuedTo v) (userPubHex st v)) v))))"

record rejection =
  rejected_voucherId :: jsval
  reason :: string

text \<open>
  The loop, with the arrays \<^verbatim>\<open>syncedIds\<close> and \<^verbatim>\<open>rejected\<close> it pushes to. An element of the
  array is an object (\<open>Some v\<close>) or \<^verbatim>\<open>null\<close> (\<open>None\<close>). On \<^verbatim>\<open>null\<close> the first property access
  \<^verbatim>\<open>v.voucherId\<close> throws a \<^verbatim>\<open>TypeError\<close> out of the loop: the result is \<open>Inl\<close> of the database
  as the vouchers before it left it, and the two arrays are lost. The handler reads the
  clock at every insert; the model gives all of them the one time \<open>now\<close> of the request.
\<close>

fun syncLoop ::
  "'k crypto \<Rightarrow> string \<Rightarrow> jsval \<Rightarrow> voucher option list \<Rightarrow> db \<times> jsval list \<times> rejection list
     \<Rightarrow> db + db \<times> jsval list \<times> rejection list" where
  "syncLoop cr now mid [] acc = Inr acc"
| "syncLoop cr now mid (None # vs) (st, syncedIds, rejected) = Inl st"
| "syncLoop cr now mid (Some v # vs) (st, syncedIds, rejected) =
     (case syncVoucher cr now mid st v of
        (Synced i, st') \<Rightarrow> syncLoop cr now mid vs (st', syncedIds @ [i], rejected)
      | (Rejected i r, st') \<Rightarrow>
          syncLoop cr now mid vs
            (st', syncedIds, rejected @ [\<lparr>rejected_voucherId = i, reason = r\<rparr>]))"

text \<open>\<^verbatim>\<open>req.body\<close>: \<open>body_vouchers\<close> is \<open>None\<close> when \<^verbatim>\<open>vouchers\<close> is not an array.\<close>

record sync_body =
  body_merchantId :: jsval
  body_vouchers :: "voucher option list option"

text \<open>
  The responses of the handler: status 400, status 500 from the \<^verbatim>\<open>catch\<close> around the loop,
  or the result with \<^verbatim>\<open>syncedIds\<close>, \<^verbatim>\<open>rejected\<close> and \<^verbatim>\<open>totalStored\<close>.
\<close>

datatype sync_response =
  Status400 string
| Status500 string
| SyncResult "jsval list" "rejection list" nat

definition sync :: "'k crypto \<Rightarrow> string \<Rightarrow> sync_body \<Rightarrow> db \<Rightarrow> sync_response \<times> db" where
  "sync cr now body st =
     (case body_vouchers body of
        None \<Rightarrow> (Status400 ''Invalid body'', st)
      | Some vs \<Rightarrow>
          (if \<not> truthy (body_merchantId body) then (Status400 ''Invalid body'', st)
           else (case syncLoop cr now (body_merchantId body) vs (st, [], []) of
                   Inl st' \<Rightarrow> (Status500 ''Database error'', st')
                 | Inr (st', ids, rej) \<Rightarrow> (SyncResult ids rej (length (vouchers st')), st'))))"

text \<open>Requests handled one after another; each carries the time at which it is served.\<close>

fun syncAll :: "'k crypto \<Rightarrow> (string \<times> sync_body) list \<Rightarrow> db \<Rightarrow> sync_response list \<times> db" where
  "syncAll cr [] st = ([], st)"
| "syncAll cr ((now, body) # reqs) st =
     (case sync cr now body st of
        (resp, st') \<Rightarrow> (case syncAll cr reqs st' of (resps, st'') \<Rightarrow> (resp # resps, st'')))"

text \<open>The elements the loop reaches: those before the first \<^verbatim>\<open>null\<close>.\<close>

fun before_null :: "voucher option list \<Rightarrow> voucher list" where
  "before_null [] = []"
| "before_null (None # es) = []"
| "before_null (Some v # es) = v # before_null es"

text \<open>The vouchers a request gets processed, none when it is answered with status 400.\<close>

definition processed :: "sync_body \<Rightarrow> voucher list" where
  "processed body =
     (case body_vouchers body of
        None \<Rightarrow> []
      | Some es \<Rightarrow> if truthy (body_merchantId body) then before_null es else [])"

text \<open>
  What the loop does, seen from outside: the outcome of each voucher in input order, each
  computed on the database its predecessors left, and the database after the last one.
\<close>

fun outcomes :: "'k crypto \<Rightarrow> string \<Rightarrow> jsval \<Rightarrow> db \<Rightarrow> voucher list \<Rightarrow> outcome list" where
  "outcomes cr now mid st [] = []"
| "outcomes cr now mid st (v # vs) =
     fst (syncVoucher cr now mid st v) # outcomes cr now mid (snd (syncVoucher cr now mid st v)) vs"

fun db_after :: "'k crypto \<Rightarrow> string \<Rightarrow> jsval \<Rightarrow> db \<Rightarrow> voucher list \<Rightarrow> db" where
  "db_after cr now mid st [] = st"
| "db_after cr now mid st (v # vs) = db_after cr now mid (snd (syncVoucher cr now mid st v)) vs"

fun is_rejected :: "outcome \<Rightarrow> bool" where
  "is_rejected (Rejected i r) = True"
| "is_rejected (Synced i) = False"

fun outcome_id :: "outcome \<Rightarrow> jsval" where
  "outcome_id (Rejected i r) = i"
| "outcome_id (Synced i) = i"

fun synced_of :: "outcome list \<Rightarrow> jsval list" where
  "synced_of [] = []"
| "synced_of (Synced i # os) = i # synced_of os"
| "synced_of (Rejected i r # os) = synced_of os"

fun rejections_of :: "outcome list \<Rightarrow> rejection list" where
  "rejections_of [] = []"
| "rejections_of (Synced i # os) = rejections_of os"
| "rejections_of (Rejected i r # os) = \<lparr>rejected_voucherId = i, reason = r\<rparr> # rejections_of os"

text \<open>The vouchers of a batch that were admitted, given the outcomes of the batch.\<close>

fun admitted :: "voucher list \<Rightarrow> outcome list \<Rightarrow> voucher list" where
  "admitted (v # vs) (Synced i # os) = v # admitted vs os"
| "admitted (v # vs) (Rejected i r # os) = admitted vs os"
| "admitted vs os = []"

text \<open>The identifiers a list of responses reports as synced.\<close>

fun synced_ids :: "sync_response \<Rightarrow> jsval list" where
  "synced_ids (SyncResult ids rej n) = ids"
| "synced_ids (Status400 e) = []"
| "synced_ids (Status500 e) = []"

fun is_500 :: "sync_response \<Rightarrow> bool" where
  "is_500 (Status500 e) = True"
| "is_500 (SyncResult ids rej n) = False"
| "is_500 (Status400 e) = False"

text \<open>
  The identifiers admitted while a sequence of requests is served, whether or not the
  response of their request reports them.
\<close>

fun admissions :: "'k crypto \<Rightarrow> (string \<times> sync_body) list \<Rightarrow> db \<Rightarrow> jsval list" where
  "admissions cr [] st = []"
| "admissions cr ((now, body) # reqs) st =
     synced_of (outcomes cr now (body_merchantId body) st (processed body))
     @ admissions cr reqs (snd (sync cr now body st))"

text \<open>How many stored vouchers carry the identifier \<open>x\<close>.\<close>

definition stored :: "db \<Rightarrow> jsval \<Rightarrow> nat" where
  "stored st x = length (filter (\<lambda>d. voucherId d = x) (vouchers st))"

text \<open>The checks of one iteration that come before the lookup of the identifier.\<close>

definition passes_checks :: "'k crypto \<Rightarrow> jsval \<Rightarrow> db \<Rightarrow> voucher \<Rightarrow> bool" where
  "passes_checks cr mid st v \<longleftrightarrow>
     \<not> invalidFormat v \<and> merchantId v = mid \<and> truthy (issuedTo v) \<and> truthy (userPubHex st v)
     \<and> verifyDER cr (userPubHex st v) (msgHashHex cr v) (signature v) = SignatureOk"

section \<open>\<^verbatim>\<open>POST /api/balance/add\<close> and \<^verbatim>\<open>POST /api/balance/deduct\<close>\<close>

text \<open>
  Both handlers run behind \<^verbatim>\<open>authMiddleware\<close>; \<open>uid\<close> is \<^verbatim>\<open>req.user.userId\<close> of the
  verified token. A response is the status with its JSON body.
\<close>

datatype api_response =
  Failure nat string "(int \<times> int) option"
| Success int int string

text \<open>\<^verbatim>\<open>user.balance || 0\<close>.\<close>

definition balance_or_0 :: "user_doc \<Rightarrow> int" where
  "balance_or_0 user = (case balance user of None \<Rightarrow> 0 | Some b \<Rightarrow> b)"

text \<open>The rupee sign, in UTF-8.\<close>

definition rupee :: string where
  "rupee = [CHR 0xE2, CHR 0x82, CHR 0xB9]"

definition addBalance :: "string \<Rightarrow> jsval \<Rightarrow> jsval \<Rightarrow> db \<Rightarrow> api_response \<times> db" where
  "addBalance now uid amt st =
     (case amt of
        JNum a \<Rightarrow>
          (if a = 0 \<or> a \<le> 0 then (Failure 400 ''Invalid amount'' None, st)
           else if a > 1000 then (Failure 400 (''Maximum load amount is '' @ rupee @ ''1000'') None, st)
           else (case findUser st uid of
                   None \<Rightarrow> (Failure 404 ''User not found'' None, st)
                 | Some user \<Rightarrow>
                     (Success (balance_or_0 user + a) a
                        (rupee @ Number_toString a @ '' added successfully''),
                      st\<lparr>users := updateOne uid
                        (\<lambda>u. u\<lparr>balance := Some (balance_or_0 user + a),
                               balanceHistory := balanceHistory u @
                                 [\<lparr>entry_type = Add, entry_amount = a, timestamp = now,
                                   previousBalance = balance_or_0 user,
                                   newBalance = balance_or_0 user + a,
                                   entry_merchantId = JUndefined,
                                   entry_voucherId = JUndefined\<rparr>]\<rparr>)
                        (users st)\<rparr>)))
      | _ \<Rightarrow> (Failure 400 ''Invalid amount'' None, st))"

definition deductBalance ::
  "string \<Rightarrow> jsval \<Rightarrow> jsval \<Rightarrow> jsval \<Rightarrow> jsval \<Rightarrow> db \<Rightarrow> api_response \<times> db" where
  "deductBalance now uid amt mid vid st =
     (case amt of
        JNum a \<Rightarrow>
          (if a = 0 \<or> a \<le> 0 then (Failure 400 ''Invalid amount'' None, st)
           else (case findUser st uid of
                   None \<Rightarrow> (Failure 404 ''User not found'' None, st)
                 | Some user \<Rightarrow>
                     (if balance_or_0 user < a
                      then (Failure 400 ''Insufficient balance'' (Some (a, balance_or_0 user)), st)
                      else
                        (Success (balance_or_0 user - a) a
                           (''Payment of '' @ rupee @ Number_toString a @ '' successful''),
                         st\<lparr>users := updateOne uid
                           (\<lambda>u. u\<lparr>balance := Some (balance_or_0 user - a),
                                  balanceHistory := balanceHistory u @
                                    [\<lparr>entry_type = Payment, entry_amount = a, timestamp = now,
                                      previousBalance = balance_or_0 user,
                                      newBalance = balance_or_0 user - a,
                                      entry_merchantId = mid,
                                      entry_voucherId = vid\<rparr>]\<rparr>)
                           (users st)\<rparr>))))
      | _ \<Rightarrow> (Failure 400 ''Invalid amount'' None, st))"

text \<open>A wallet operation of one identity, and a sequence of them served in order.\<close>

datatype wallet_op = Credit jsval | Debit jsval jsval jsval

fun applyOp :: "jsval \<Rightarrow> string \<times> wallet_op \<Rightarrow> db \<Rightarrow> api_response \<times> db" where
  "applyOp uid (now, Credit amt) st = addBalance now uid amt st"
| "applyOp uid (now, Debit amt mid vid) st = deductBalance now uid amt mid vid st"

fun applyOps :: "jsval \<Rightarrow> (string \<times> wallet_op) list \<Rightarrow> db \<Rightarrow> api_response list \<times> db" where
  "applyOps uid [] st = ([], st)"
| "applyOps uid (x # xs) st =
     (case applyOp uid x st of
        (resp, st') \<Rightarrow> (case applyOps uid xs st' of (resps, st'') \<Rightarrow> (resp # resps, st'')))"

text \<open>The balance \<^verbatim>\<open>GET /api/balance\<close> would report for \<open>uid\<close> (0 when there is no such user).\<close>

definition balanceOf :: "db \<Rightarrow> jsval \<Rightarrow> int" where
  "balanceOf st uid = (case findUser st uid of None \<Rightarrow> 0 | Some user \<Rightarrow> balance_or_0 user)"

text \<open>The amounts of the operations that were answered with success.\<close>

fun credited :: "(string \<times> wallet_op) \<times> api_response \<Rightarrow> int" where
  "credited ((now, Credit amt), Success b a m) = a"
| "credited x = 0"

fun debited :: "(string \<times> wallet_op) \<times> api_response \<Rightarrow> int" where
  "debited ((now, Debit amt mid vid), Success b a m) = a"
| "debited x = 0"

section \<open>Example data\<close>

text \<open>
  A stand-in for the libraries, small enough to compute with: a public key is a string
  starting with \<^verbatim>\<open>04\<close>, a signature is a string starting with \<^verbatim>\<open>30\<close> (anything else makes
  the library throw), and the signature of a digest under a key is \<open>demo_sign\<close>.
\<close>

definition demo_crypto :: "string crypto" where
  "demo_crypto =
     \<lparr>sha256 = (\<lambda>s. ''sha256:'' @ s),
      keyFromPublic = (\<lambda>x. case x of JStr s \<Rightarrow> if take 2 s = ''04'' then Some s else None
                                 | _ \<Rightarrow> None),
      verify = (\<lambda>key h sig. case sig of
                  JStr s \<Rightarrow> if take 2 s = ''30'' then Some (s = ''30'' @ key @ ''/'' @ h) else None
                | _ \<Rightarrow> None)\<rparr>"

definition demo_sign :: "string \<Rightarrow> payload \<Rightarrow> jsval" where
  "demo_sign key p = JStr (''30'' @ key @ ''/'' @ sha256 demo_crypto (JSON_stringify p))"

text \<open>A voucher signed under \<open>key\<close>, carrying the key or not.\<close>

definition signed_voucher :: "string \<Rightarrow> string \<Rightarrow> int \<Rightarrow> string \<Rightarrow> string \<Rightarrow> jsval \<Rightarrow> voucher" where
  "signed_voucher vid mid amt uid key inline =
     \<lparr>voucherId = JStr vid, merchantId = JStr mid, amount = JNum amt, createdAt = JStr ''t0'',
      issuedTo = JStr uid,
      signature = demo_sign key
        \<lparr>voucherId = JStr vid, merchantId = JStr mid, amount = JNum amt, createdAt = JStr ''t0'',
         issuedTo = JStr uid\<rparr>,
      publicKeyHex = inline\<rparr>"

definition empty_db :: db where
  "empty_db = \<lparr>vouchers = [], users = []\<rparr>"

definition voucher1 :: voucher where
  "voucher1 = signed_voucher ''v1'' ''M1'' 50 ''u1'' ''04aa'' (JStr ''04aa'')"


text \<open>A registered user holding 100, and a database with that user and no voucher.\<close>

definition alice :: user_doc where
  "alice = \<lparr>userId = JStr ''user_1'', user_publicKeyHex = JNull, registeredAt = [],
            balance = Some 100, balanceHistory = []\<rparr>"

definition wallet_db :: db where
  "wallet_db = \<lparr>vouchers = [], users = [alice]\<rparr>"

definition wallet_ops :: "(string \<times> wallet_op) list" where
  "wallet_ops =
     [(''t1'', Debit (JNum 120) (JStr ''M1'') (JStr ''v1'')),
      (''t2'', Credit (JNum 50)),
      (''t3'', Debit (JNum 120) (JStr ''M1'') (JStr ''v1'')),
      (''t4'', Credit (JNum 2000)),
      (''t5'', Debit (JNum 30) (JStr ''M2'') (JStr ''v2''))]"

text \<open>A second voucher of \<^verbatim>\<open>u1\<close>, signed under the same key but sent without it.\<close>

definition keyless_voucher :: voucher where
  "keyless_voucher = signed_voucher ''v2'' ''M1'' 20 ''u1'' ''04aa'' JUndefined"

text \<open>
  A batch for merchant \<^verbatim>\<open>M1\<close>: a good voucher, the same voucher with its amount changed,
  the same voucher again, a second voucher without its key, and a voucher of another
  merchant.
\<close>

definition batch1 :: "voucher list" where
  "batch1 =
     [voucher1,
      voucher1\<lparr>amount := JNum 500\<rparr>,
      voucher1,
      keyless_voucher,
      voucher1\<lparr>merchantId := JStr ''M2''\<rparr>]"

text \<open>The database after \<open>voucher1\<close> was settled for merchant \<^verbatim>\<open>M1\<close> at time \<^verbatim>\<open>t1\<close>.\<close>

definition db1 :: db where
  "db1 =
     \<lparr>vouchers =
        [\<lparr>voucherId = JStr ''v1'', merchantId = JStr ''M1'', amount = JNum 50,
          createdAt = JStr ''t0'', issuedTo = JStr ''u1'',
          doc_signature = signature voucher1, status = ''synced'', syncedAt = ''t1''\<rparr>],
      users =
        [\<lparr>userId = JStr ''u1'', user_publicKeyHex = JStr ''04aa'', registeredAt = ''t1'',
          balance = None, balanceHistory = []\<rparr>]\<rparr>"

text \<open>\<open>voucher1\<close> with a key the library cannot parse, and with a signature it cannot parse.\<close>

definition bad_key_voucher :: voucher where
  "bad_key_voucher = voucher1\<lparr>publicKeyHex := JStr ''zz''\<rparr>"

definition bad_sig_voucher :: voucher where
  "bad_sig_voucher = voucher1\<lparr>signature := JStr ''zz''\<rparr>"

text \<open>A voucher of a new payer \<^verbatim>\<open>u2\<close> that reuses the identifier \<^verbatim>\<open>v1\<close>.\<close>

definition voucher_u2 :: voucher where
  "voucher_u2 = signed_voucher ''v1'' ''M1'' 70 ''u2'' ''04bb'' (JStr ''04bb'')"

text \<open>\<open>voucher1\<close> with its amount changed after signing.\<close>

definition tampered_voucher :: voucher where
  "tampered_voucher = voucher1\<lparr>amount := JNum 500\<rparr>"

text \<open>
  Three requests: merchant \<^verbatim>\<open>M1\<close> submits \<open>voucher1\<close> twice in one batch, merchant \<^verbatim>\<open>M2\<close>
  resubmits it, and \<^verbatim>\<open>M1\<close> resubmits it with the amount changed.
\<close>

definition requests1 :: "(string \<times> sync_body) list" where
  "requests1 =
     [(''t1'', \<lparr>body_merchantId = JStr ''M1'', body_vouchers = Some [Some voucher1, Some voucher1]\<rparr>),
      (''t2'', \<lparr>body_merchantId = JStr ''M2'', body_vouchers = Some [Some voucher1]\<rparr>),
      (''t3'', \<lparr>body_merchantId = JStr ''M1'', body_vouchers = Some [Some tampered_voucher]\<rparr>)]"

text \<open>
  Two requests of merchant \<^verbatim>\<open>M1\<close>: \<open>voucher1\<close> followed by a \<^verbatim>\<open>null\<close> element, then
  \<open>voucher1\<close> again.
\<close>

definition requests2 :: "(string \<times> sync_body) list" where
  "requests2 =
     [(''t1'', \<lparr>body_merchantId = JStr ''M1'', body_vouchers = Some [Some voucher1, None]\<rparr>),
      (''t2'', \<lparr>body_merchantId = JStr ''M1'', body_vouchers = Some [Some voucher1]\<rparr>)]"

section \<open>Printing numbers\<close>

lemma bitlen_le: "n < 2 ^ k \<Longrightarrow> bitlen n \<le> k"
proof (induction k arbitrary: n)
  case 0
  then show ?case by (simp add: bitlen.simps)
next
  case (Suc k)
  show ?case
  proof (cases "n = 0")
    case True
    then show ?thesis by (simp add: bitlen.simps)
  next
    case False
    from Suc.prems have "n div 2 < 2 ^ k" by simp
    then have "bitlen (n div 2) \<le> k" by (rule Suc.IH)
    with False show ?thesis by (subst bitlen.simps) simp
  qed
qed

lemma to_double_safe: "n < 2 ^ 53 \<Longrightarrow> to_double n = (n, 0)"
  using bitlen_le [of n 53] by (simp add: to_double_def Let_def)

lemma nat_abs_safe: "safe_integer i \<Longrightarrow> nat \<bar>i\<bar> < 2 ^ 53"
  by (simp add: safe_integer_def nat_less_iff)

lemma finite_number_safe: "safe_integer i \<Longrightarrow> finite_number i"
  using nat_abs_safe [of i] by (simp add: finite_number_def to_double_safe)

lemma Number_toString_safe:
  "safe_integer i \<Longrightarrow>
   Number_toString i = (if i < 0 then CHR ''-'' # digits (nat (- i)) else digits (nat i))"
  using nat_abs_safe [of i] by (auto simp: Number_toString_def Let_def)

lemmas number_simps = Number_toString_def to_double_def bitlen.simps declen.simps Let_def
  shortest_def candidate_def reads_back_def format_digits_def strip_zeros_def digits.simps
  digit_char_def finite_number_def

section \<open>The balance ledger\<close>

lemma find_updateOne_same:
  assumes "\<And>u. userId (f u) = userId u"
  shows "find (\<lambda>u. userId u = x) (updateOne x f us) = map_option f (find (\<lambda>u. userId u = x) us)"
  using assms by (induction us) auto

text \<open>
  C7. A debit of a positive amount by an existing user: when the amount exceeds the
  balance, the answer is the error \<^verbatim>\<open>Insufficient balance\<close> with the required amount and
  the available balance, and the database is unchanged; otherwise the balance goes down
  by exactly the amount and one \<^verbatim>\<open>payment\<close> entry with the previous balance, the new
  balance, the timestamp, the merchant and the voucher is appended to the history.
\<close>

theorem deductBalance_correct:
  assumes "findUser st uid = Some user" and "0 < a"
  shows "(balance_or_0 user < a \<longrightarrow>
            deductBalance now uid (JNum a) mid vid st =
              (Failure 400 ''Insufficient balance'' (Some (a, balance_or_0 user)), st))
       \<and> (a \<le> balance_or_0 user \<longrightarrow>
            fst (deductBalance now uid (JNum a) mid vid st) =
              Success (balance_or_0 user - a) a
                (''Payment of '' @ rupee @ Number_toString a @ '' successful'')
          \<and> findUser (snd (deductBalance now uid (JNum a) mid vid st)) uid =
              Some (user\<lparr>balance := Some (balance_or_0 user - a),
                         balanceHistory := balanceHistory user @
                           [\<lparr>entry_type = Payment, entry_amount = a, timestamp = now,
                             previousBalance = balance_or_0 user,
                             newBalance = balance_or_0 user - a,
                             entry_merchantId = mid, entry_voucherId = vid\<rparr>]\<rparr>)
          \<and> balanceOf (snd (deductBalance now uid (JNum a) mid vid st)) uid = balanceOf st uid - a
          \<and> vouchers (snd (deductBalance now uid (JNum a) mid vid st)) = vouchers st)"
  using assms
  by (auto simp: deductBalance_def findUser_def balanceOf_def balance_or_0_def find_updateOne_same)

theorem deductBalance_correct_witness:
  "deductBalance ''t1'' (JStr ''user_1'') (JNum 120) (JStr ''M1'') (JStr ''v1'') wallet_db =
     (Failure 400 ''Insufficient balance'' (Some (120, 100)), wallet_db)
   \<and> balanceOf (snd (deductBalance ''t1'' (JStr ''user_1'') (JNum 30) (JStr ''M1'') (JStr ''v1'')
        wallet_db)) (JStr ''user_1'') = 70
   \<and> findUser (snd (deductBalance ''t1'' (JStr ''user_1'') (JNum 30) (JStr ''M1'') (JStr ''v1'')
        wallet_db)) (JStr ''user_1'') =
       Some (alice\<lparr>balance := Some 70,
                    balanceHistory :=
                      [\<lparr>entry_type = Payment, entry_amount = 30, timestamp = ''t1'',
                        previousBalance = 100, newBalance = 70,
                        entry_merchantId = JStr ''M1'', entry_voucherId = JStr ''v1''\<rparr>]\<rparr>)"
proof -
  have u: "findUser wallet_db (JStr ''user_1'') = Some alice"
    by (simp add: findUser_def wallet_db_def alice_def)
  have b: "balance_or_0 alice = 100" "balanceHistory alice = []"
    by (simp_all add: balance_or_0_def alice_def)
  have w: "balanceOf wallet_db (JStr ''user_1'') = 100"
    by (simp add: balanceOf_def u b)
  show ?thesis
    using deductBalance_correct [OF u, of 120 "''t1''" "JStr ''M1''" "JStr ''v1''"]
      deductBalance_correct [OF u, of 30 "''t1''" "JStr ''M1''" "JStr ''v1''"]
    by (simp add: b w)
qed

text \<open>
  C8. A credit by an existing user is refused when the amount is not a number, is not
  positive, or exceeds 1000; otherwise it succeeds: the balance goes up by exactly the
  amount and one \<^verbatim>\<open>add\<close> entry with the previous balance, the new balance and the
  timestamp is appended to the history.
\<close>

theorem addBalance_correct:
  assumes "findUser st uid = Some user"
  shows "(typeof amt \<noteq> ''number'' \<longrightarrow>
            addBalance now uid amt st = (Failure 400 ''Invalid amount'' None, st))
       \<and> (amt = JNum a \<and> a \<le> 0 \<longrightarrow>
            addBalance now uid amt st = (Failure 400 ''Invalid amount'' None, st))
       \<and> (amt = JNum a \<and> 1000 < a \<longrightarrow>
            addBalance now uid amt st =
              (Failure 400 (''Maximum load amount is '' @ rupee @ ''1000'') None, st))
       \<and> (amt = JNum a \<and> 0 < a \<and> a \<le> 1000 \<longrightarrow>
            fst (addBalance now uid amt st) =
              Success (balance_or_0 user + a) a (rupee @ Number_toString a @ '' added successfully'')
          \<and> findUser (snd (addBalance now uid amt st)) uid =
              Some (user\<lparr>balance := Some (balance_or_0 user + a),
                         balanceHistory := balanceHistory user @
                           [\<lparr>entry_type = Add, entry_amount = a, timestamp = now,
                             previousBalance = balance_or_0 user,
                             newBalance = balance_or_0 user + a,
                             entry_merchantId = JUndefined, entry_voucherId = JUndefined\<rparr>]\<rparr>)
          \<and> balanceOf (snd (addBalance now uid amt st)) uid = balanceOf st uid + a
          \<and> vouchers (snd (addBalance now uid amt st)) = vouchers st)"
  using assms
  by (cases amt)
     (auto simp: addBalance_def findUser_def balanceOf_def balance_or_0_def find_updateOne_same)

theorem addBalance_correct_witness:
  "addBalance ''t1'' (JStr ''user_1'') (JStr ''50'') wallet_db =
     (Failure 400 ''Invalid amount'' None, wallet_db)
   \<and> addBalance ''t1'' (JStr ''user_1'') (JNum 0) wallet_db =
     (Failure 400 ''Invalid amount'' None, wallet_db)
   \<and> addBalance ''t1'' (JStr ''user_1'') (JNum 1001) wallet_db =
     (Failure 400 (''Maximum load amount is '' @ rupee @ ''1000'') None, wallet_db)
   \<and> balanceOf (snd (addBalance ''t1'' (JStr ''user_1'') (JNum 1000) wallet_db)) (JStr ''user_1'')
       = 1100
   \<and> findUser (snd (addBalance ''t1'' (JStr ''user_1'') (JNum 1000) wallet_db)) (JStr ''user_1'') =
       Some (alice\<lparr>balance := Some 1100,
                    balanceHistory :=
                      [\<lparr>entry_type = Add, entry_amount = 1000, timestamp = ''t1'',
                        previousBalance = 100, newBalance = 1100,
                        entry_merchantId = JUndefined, entry_voucherId = JUndefined\<rparr>]\<rparr>)"
proof -
  have u: "findUser wallet_db (JStr ''user_1'') = Some alice"
    by (simp add: findUser_def wallet_db_def alice_def)
  have b: "balance_or_0 alice = 100" "balanceHistory alice = []"
    by (simp_all add: balance_or_0_def alice_def)
  have w: "balanceOf wallet_db (JStr ''user_1'') = 100"
    by (simp add: balanceOf_def u b)
  show ?thesis
    using addBalance_correct [OF u, of "JStr ''50''" "''t1''" 0]
      addBalance_correct [OF u, of "JNum 0" "''t1''" 0]
      addBalance_correct [OF u, of "JNum 1001" "''t1''" 1001]
      addBalance_correct [OF u, of "JNum 1000" "''t1''" 1000]
    by (simp add: b w)
qed

lemma applyOp_balance:
  "balanceOf (snd (applyOp uid x st)) uid =
     balanceOf st uid + credited (x, fst (applyOp uid x st)) - debited (x, fst (applyOp uid x st))"
proof (cases x)
  case (Pair now op)
  show ?thesis
  proof (cases op)
    case (Credit amt)
    with Pair show ?thesis
      by (cases amt; cases "findUser st uid")
         (auto simp: addBalance_def findUser_def balanceOf_def balance_or_0_def find_updateOne_same)
  next
    case (Debit amt mid vid)
    with Pair show ?thesis
      by (cases amt; cases "findUser st uid")
         (auto simp: deductBalance_def findUser_def balanceOf_def balance_or_0_def find_updateOne_same)
  qed
qed

lemma applyOp_nonneg:
  assumes "0 \<le> balanceOf st uid"
  shows "0 \<le> balanceOf (snd (applyOp uid x st)) uid"
proof (cases x)
  case (Pair now op)
  show ?thesis
  proof (cases op)
    case (Credit amt)
    with Pair assms show ?thesis
      by (cases amt; cases "findUser st uid")
         (auto simp: addBalance_def findUser_def balanceOf_def balance_or_0_def find_updateOne_same)
  next
    case (Debit amt mid vid)
    with Pair assms show ?thesis
      by (cases amt; cases "findUser st uid")
         (auto simp: deductBalance_def findUser_def balanceOf_def balance_or_0_def find_updateOne_same)
  qed
qed

lemma applyOps_Cons:
  "applyOps uid (x # xs) st =
     (fst (applyOp uid x st) # fst (applyOps uid xs (snd (applyOp uid x st))),
      snd (applyOps uid xs (snd (applyOp uid x st))))"
  by (simp split: prod.splits)

lemma applyOps_nonneg:
  "0 \<le> balanceOf st uid \<Longrightarrow> 0 \<le> balanceOf (snd (applyOps uid ops st)) uid"
proof (induction ops arbitrary: st)
  case Nil
  then show ?case by simp
next
  case (Cons x xs)
  from Cons.prems have "0 \<le> balanceOf (snd (applyOp uid x st)) uid"
    by (rule applyOp_nonneg)
  then have "0 \<le> balanceOf (snd (applyOps uid xs (snd (applyOp uid x st)))) uid"
    by (rule Cons.IH)
  then show ?case by (simp only: applyOps_Cons snd_conv)
qed

lemma applyOps_balance:
  "balanceOf (snd (applyOps uid ops st)) uid =
     balanceOf st uid + sum_list (map credited (zip ops (fst (applyOps uid ops st))))
       - sum_list (map debited (zip ops (fst (applyOps uid ops st))))"
proof (induction ops arbitrary: st)
  case Nil
  then show ?case by simp
next
  case (Cons x xs)
  obtain r st1 where s1: "applyOp uid x st = (r, st1)" by (cases "applyOp uid x st")
  obtain rs st2 where s2: "applyOps uid xs st1 = (rs, st2)" by (cases "applyOps uid xs st1")
  have a: "balanceOf st1 uid = balanceOf st uid + credited (x, r) - debited (x, r)"
    using applyOp_balance [of uid x st] s1 by simp
  have b: "balanceOf st2 uid = balanceOf st1 uid + sum_list (map credited (zip xs rs))
            - sum_list (map debited (zip xs rs))"
    using Cons.IH [of st1] s2 by simp
  show ?case using a b s1 s2 by simp
qed

lemma wallet_run:
  "fst (applyOps (JStr ''user_1'') wallet_ops wallet_db) =
     [Failure 400 ''Insufficient balance'' (Some (120, 100)),
      Success 150 50 (rupee @ ''50 added successfully''),
      Success 30 120 (''Payment of '' @ rupee @ ''120 successful''),
      Failure 400 (''Maximum load amount is '' @ rupee @ ''1000'') None,
      Success 0 30 (''Payment of '' @ rupee @ ''30 successful'')]"
  by (simp add: wallet_ops_def wallet_db_def alice_def addBalance_def deductBalance_def
      findUser_def balance_or_0_def number_simps)


text \<open>
  C9. For a sequence of credits and debits of one user served one after another, the
  final balance is the initial balance plus the amounts of the credits that succeeded
  minus the amounts of the debits that succeeded; and when the initial balance is not
  negative (a user is created with balance 0 or with none), the balance is not negative
  after any prefix of the sequence.
\<close>

theorem balance_conservation:
  "balanceOf (snd (applyOps uid ops st)) uid =
     balanceOf st uid + sum_list (map credited (zip ops (fst (applyOps uid ops st))))
       - sum_list (map debited (zip ops (fst (applyOps uid ops st))))
   \<and> (0 \<le> balanceOf st uid \<longrightarrow>
        (\<forall>n. 0 \<le> balanceOf (snd (applyOps uid (take n ops) st)) uid))"
  using applyOps_balance [of uid ops st] applyOps_nonneg [of st uid] by simp

theorem balance_conservation_witness:
  "0 \<le> balanceOf wallet_db (JStr ''user_1'')
   \<and> fst (applyOps (JStr ''user_1'') wallet_ops wallet_db) =
     [Failure 400 ''Insufficient balance'' (Some (120, 100)),
      Success 150 50 (rupee @ ''50 added successfully''),
      Success 30 120 (''Payment of '' @ rupee @ ''120 successful''),
      Failure 400 (''Maximum load amount is '' @ rupee @ ''1000'') None,
      Success 0 30 (''Payment of '' @ rupee @ ''30 successful'')]
   \<and> balanceOf (snd (applyOps (JStr ''user_1'') wallet_ops wallet_db)) (JStr ''user_1'')
       = 100 + 50 - (120 + 30)
   \<and> 0 \<le> balanceOf (snd (applyOps (JStr ''user_1'') (take 3 wallet_ops) wallet_db)) (JStr ''user_1'')"
proof -
  have w: "balanceOf wallet_db (JStr ''user_1'') = 100"
    by (simp add: balanceOf_def findUser_def wallet_db_def alice_def balance_or_0_def)
  have nonneg: "0 \<le> balanceOf wallet_db (JStr ''user_1'')"
    by (simp add: w)
  note c = balance_conservation [of "JStr ''user_1''" wallet_ops wallet_db]
  have cr: "sum_list (map credited (zip wallet_ops (fst (applyOps (JStr ''user_1'') wallet_ops wallet_db)))) = 50"
    unfolding wallet_run by (simp add: wallet_ops_def)
  have de: "sum_list (map debited (zip wallet_ops (fst (applyOps (JStr ''user_1'') wallet_ops wallet_db)))) = 120 + 30"
    unfolding wallet_run by (simp add: wallet_ops_def)
  show ?thesis
    using c nonneg unfolding cr de w by (simp add: wallet_run)
qed

section \<open>The settlement loop\<close>

lemma syncVoucher_Synced_iff:
  "fst (syncVoucher cr now mid st v) = Synced i \<longleftrightarrow>
     i = voucherId v \<and> passes_checks cr mid st v \<and> findVoucher st (voucherId v) = None"
  by (auto simp: syncVoucher_def passes_checks_def split: verdict.splits)

lemma syncVoucher_admits:
  assumes "passes_checks cr mid st v" and "findVoucher st (voucherId v) = None"
  shows "syncVoucher cr now mid st v =
           (Synced (voucherId v),
            storeVoucher now mid (autoRegister now st (issuedTo v) (userPubHex st v)) v)"
  using assms by (auto simp: syncVoucher_def passes_checks_def split: verdict.splits)

lemma syncVoucher_duplicate:
  assumes "passes_checks cr mid st v" and "findVoucher st (voucherId v) \<noteq> None"
  shows "syncVoucher cr now mid st v = (Rejected (voucherId v) ''Duplicate voucherId'', st)"
  using assms by (auto simp: syncVoucher_def passes_checks_def split: verdict.splits)

lemma syncVoucher_rejected_unchanged:
  "is_rejected (fst (syncVoucher cr now mid st v)) \<Longrightarrow> snd (syncVoucher cr now mid st v) = st"
  by (auto simp: syncVoucher_def split: verdict.splits if_splits)

lemma syncVoucher_outcome_id: "outcome_id (fst (syncVoucher cr now mid st v)) = voucherId v"
  by (auto simp: syncVoucher_def split: verdict.splits)

lemma syncVoucher_not_passing:
  "\<not> passes_checks cr mid st v \<Longrightarrow> is_rejected (fst (syncVoucher cr now mid st v))"
  by (auto simp: syncVoucher_def passes_checks_def split: verdict.splits)

lemma syncVoucher_present:
  "findVoucher st (voucherId v) \<noteq> None \<Longrightarrow> is_rejected (fst (syncVoucher cr now mid st v))"
  by (auto simp: syncVoucher_def split: verdict.splits)

lemma vouchers_autoRegister [simp]: "vouchers (autoRegister now st uid pub) = vouchers st"
  by (simp add: autoRegister_def)

lemma users_storeVoucher [simp]: "users (storeVoucher now mid st v) = users st"
  by (simp add: storeVoucher_def)

lemma length_outcomes [simp]: "length (outcomes cr now mid st vs) = length vs"
  by (induction vs arbitrary: st) simp_all

lemma outcome_ids: "map outcome_id (outcomes cr now mid st vs) = map voucherId vs"
  by (induction vs arbitrary: st) (simp_all add: syncVoucher_outcome_id)

lemma syncLoop_outcomes:
  "syncLoop cr now mid es (st, ids, rej) =
     (if None \<in> set es then Inl (db_after cr now mid st (before_null es))
      else Inr (db_after cr now mid st (before_null es),
                ids @ synced_of (outcomes cr now mid st (before_null es)),
                rej @ rejections_of (outcomes cr now mid st (before_null es))))"
proof (induction es arbitrary: st ids rej)
  case Nil
  then show ?case by simp
next
  case (Cons e es)
  show ?case
  proof (cases e)
    case None
    then show ?thesis by simp
  next
    case (Some v)
    obtain out st' where step: "syncVoucher cr now mid st v = (out, st')"
      by (cases "syncVoucher cr now mid st v")
    show ?thesis
    proof (cases out)
      case (Synced i)
      with Some step Cons.IH [of st' "ids @ [i]" rej] show ?thesis by simp
    next
      case (Rejected i r)
      with Some step Cons.IH [of st' ids "rej @ [\<lparr>rejected_voucherId = i, reason = r\<rparr>]"]
      show ?thesis by simp
    qed
  qed
qed

lemma before_null_map_Some [simp]: "before_null (map Some vs) = vs"
  by (induction vs) simp_all

lemma snd_sync_processed:
  "snd (sync cr now body st) = db_after cr now (body_merchantId body) st (processed body)"
  by (simp add: sync_def processed_def syncLoop_outcomes split: option.splits)

lemma length_synced_of:
  "length (synced_of os) = length os - length (filter is_rejected os)"
  by (induction os rule: synced_of.induct) (simp_all add: Suc_diff_le)

lemma length_rejections_of:
  "length (rejections_of os) = length (filter is_rejected os)"
  by (induction os rule: rejections_of.induct) simp_all

lemma vouchers_step:
  "length (vouchers (snd (syncVoucher cr now mid st v))) =
     length (vouchers st) + (if is_rejected (fst (syncVoucher cr now mid st v)) then 0 else 1)"
  by (auto simp: syncVoucher_def storeVoucher_def split: verdict.splits)

lemma length_vouchers_db_after:
  "length (vouchers (db_after cr now mid st vs)) =
     length (vouchers st) + length (synced_of (outcomes cr now mid st vs))"
proof (induction vs arbitrary: st)
  case Nil
  then show ?case by simp
next
  case (Cons v vs)
  show ?case
    using Cons.IH [of "snd (syncVoucher cr now mid st v)"] vouchers_step [of cr now mid st v]
    by (cases "fst (syncVoucher cr now mid st v)") simp_all
qed

lemma admitted_only:
  "db_after cr now mid st (admitted vs (outcomes cr now mid st vs)) = db_after cr now mid st vs
   \<and> outcomes cr now mid st (admitted vs (outcomes cr now mid st vs)) =
       map Synced (synced_of (outcomes cr now mid st vs))"
proof (induction vs arbitrary: st)
  case Nil
  then show ?case by simp
next
  case (Cons v vs)
  show ?case
  proof (cases "fst (syncVoucher cr now mid st v)")
    case (Synced i)
    with Cons.IH [of "snd (syncVoucher cr now mid st v)"] show ?thesis by simp
  next
    case (Rejected i r)
    then have "snd (syncVoucher cr now mid st v) = st"
      using syncVoucher_rejected_unchanged [of cr now mid st v] by simp
    with Rejected Cons.IH [of st] show ?thesis by simp
  qed
qed

lemma synced_of_map_Synced [simp]: "synced_of (map Synced xs) = xs"
  by (induction xs) simp_all

lemma rejections_of_map_Synced [simp]: "rejections_of (map Synced xs) = []"
  by (induction xs) simp_all

lemma synced_of_Cons: "synced_of (out # os) = synced_of [out] @ synced_of os"
  by (cases out) simp_all

lemma stored_ids_step:
  "map voucherId (vouchers (snd (syncVoucher cr now mid st v))) =
     map voucherId (vouchers st) @ synced_of [fst (syncVoucher cr now mid st v)]"
  by (auto simp: syncVoucher_def storeVoucher_def split: verdict.splits)

lemma stored_ids_db_after:
  "map voucherId (vouchers (db_after cr now mid st vs)) =
     map voucherId (vouchers st) @ synced_of (outcomes cr now mid st vs)"
proof (induction vs arbitrary: st)
  case Nil
  then show ?case by simp
next
  case (Cons v vs)
  show ?case
    using Cons.IH [of "snd (syncVoucher cr now mid st v)"] stored_ids_step [of cr now mid st v]
      synced_of_Cons [of "fst (syncVoucher cr now mid st v)"
        "outcomes cr now mid (snd (syncVoucher cr now mid st v)) vs"]
    by simp
qed

text \<open>
  A batch of \<open>N\<close> vouchers without a \<^verbatim>\<open>null\<close> element, of which \<open>K\<close> are rejected when their
  turn comes, is processed to the end in input order: the response lists \<open>N - K\<close> synced
  identifiers and \<open>K\<close> rejections, each with the identifier of its voucher and a reason,
  and the ledger grows by the synced identifiers in order. The rejected vouchers change
  nothing: the batch of the admitted vouchers alone gives the same synced identifiers and
  the same database.
\<close>

lemma sync_partial_success:
  fixes cr :: "'k crypto" and now :: string and st :: db and body :: sync_body
    and vs :: "voucher list"
  assumes "truthy (body_merchantId body)" and "body_vouchers body = Some (map Some vs)"
  defines "outs \<equiv> outcomes cr now (body_merchantId body) st vs"
  defines "K \<equiv> length (filter is_rejected outs)"
  shows "sync cr now body st =
           (SyncResult (synced_of outs) (rejections_of outs) (length (vouchers st) + (length vs - K)),
            db_after cr now (body_merchantId body) st vs)
       \<and> length outs = length vs
       \<and> map outcome_id outs = map voucherId vs
       \<and> length (synced_of outs) = length vs - K
       \<and> length (rejections_of outs) = K
       \<and> map voucherId (vouchers (db_after cr now (body_merchantId body) st vs)) =
           map voucherId (vouchers st) @ synced_of outs
       \<and> sync cr now (body\<lparr>body_vouchers := Some (map Some (admitted vs outs))\<rparr>) st =
           (SyncResult (synced_of outs) [] (length (vouchers st) + (length vs - K)),
            db_after cr now (body_merchantId body) st vs)"
proof -
  have len: "length outs = length vs"
    by (simp add: outs_def)
  have ids: "length (synced_of outs) = length vs - K"
    using length_synced_of [of outs] by (simp add: K_def len)
  have rej: "length (rejections_of outs) = K"
    by (simp add: K_def length_rejections_of)
  have total: "length (vouchers (db_after cr now (body_merchantId body) st vs)) =
                 length (vouchers st) + (length vs - K)"
    using length_vouchers_db_after [of cr now "body_merchantId body" st vs] ids
    by (simp add: outs_def)
  have nn: "None \<notin> set (map Some ws)" for ws :: "voucher list"
    by auto
  have whole: "sync cr now body st =
           (SyncResult (synced_of outs) (rejections_of outs) (length (vouchers st) + (length vs - K)),
            db_after cr now (body_merchantId body) st vs)"
    using assms(1,2) total nn [of vs] by (simp add: sync_def syncLoop_outcomes outs_def)
  have part: "sync cr now (body\<lparr>body_vouchers := Some (map Some (admitted vs outs))\<rparr>) st =
           (SyncResult (synced_of outs) [] (length (vouchers st) + (length vs - K)),
            db_after cr now (body_merchantId body) st vs)"
    using assms(1) total admitted_only [of cr now "body_merchantId body" st vs]
      nn [of "admitted vs outs"]
    by (simp add: sync_def syncLoop_outcomes outs_def)
  show ?thesis
    using whole part len ids rej stored_ids_db_after [of cr now "body_merchantId body" st vs]
    by (simp add: outs_def outcome_ids)
qed

lemma batch1_outcomes:
  "outcomes demo_crypto ''t1'' (JStr ''M1'') empty_db batch1 =
     [Synced (JStr ''v1''), Rejected (JStr ''v1'') ''Bad signature'',
      Rejected (JStr ''v1'') ''Duplicate voucherId'', Synced (JStr ''v2''),
      Rejected (JStr ''v1'') ''Wrong merchantId'']"
  by (simp add: batch1_def keyless_voucher_def voucher1_def signed_voucher_def demo_sign_def
      demo_crypto_def
      empty_db_def syncVoucher_def invalidFormat_def userPubHex_def findUser_def findVoucher_def
      msgHashHex_def payload_of_def JSON_stringify_def JSON_property_def quote_def quote_char_def
      number_simps verifyDER_def autoRegister_def
      storeVoucher_def)

lemma sync_partial_success_example:
  "sync demo_crypto ''t1''
     \<lparr>body_merchantId = JStr ''M1'', body_vouchers = Some (map Some batch1)\<rparr> empty_db =
     (SyncResult [JStr ''v1'', JStr ''v2'']
        [\<lparr>rejected_voucherId = JStr ''v1'', reason = ''Bad signature''\<rparr>,
         \<lparr>rejected_voucherId = JStr ''v1'', reason = ''Duplicate voucherId''\<rparr>,
         \<lparr>rejected_voucherId = JStr ''v1'', reason = ''Wrong merchantId''\<rparr>] 2,
      db_after demo_crypto ''t1'' (JStr ''M1'') empty_db batch1)
   \<and> sync demo_crypto ''t1''
       \<lparr>body_merchantId = JStr ''M1'',
        body_vouchers = Some (map Some [voucher1, keyless_voucher])\<rparr>
       empty_db =
     (SyncResult [JStr ''v1'', JStr ''v2''] [] 2,
      db_after demo_crypto ''t1'' (JStr ''M1'') empty_db batch1)"
proof -
  have m: "truthy (body_merchantId
      \<lparr>body_merchantId = JStr ''M1'', body_vouchers = Some (map Some batch1)\<rparr>)"
    by simp
  have b: "body_vouchers \<lparr>body_merchantId = JStr ''M1'', body_vouchers = Some (map Some batch1)\<rparr>
      = Some (map Some batch1)"
    by simp
  have a: "admitted batch1
             [Synced (JStr ''v1''), Rejected (JStr ''v1'') ''Bad signature'',
              Rejected (JStr ''v1'') ''Duplicate voucherId'', Synced (JStr ''v2''),
              Rejected (JStr ''v1'') ''Wrong merchantId''] =
           [voucher1, keyless_voucher]"
    by (simp add: batch1_def)
  have l: "length batch1 = 5"
    by (simp add: batch1_def)
  have e: "vouchers empty_db = []"
    by (simp add: empty_db_def)
  show ?thesis
    using sync_partial_success [OF m b, of demo_crypto "''t1''" empty_db]
    by (simp add: l e batch1_outcomes a)
qed

text \<open>
  C2. The loop does not reach the end of every batch. A \<^verbatim>\<open>null\<close> element is not rejected
  as an invalid voucher: the property access on it throws, the handler answers with
  status 500 and no list at all, the voucher before it stays stored and the voucher after
  it is never examined.
\<close>

theorem null_element_aborts_batch:
  "sync demo_crypto ''t1''
     \<lparr>body_merchantId = JStr ''M1'', body_vouchers = Some [Some voucher1, None, Some keyless_voucher]\<rparr>
     empty_db = (Status500 ''Database error'', db1)
   \<and> map voucherId (vouchers db1) = [JStr ''v1'']
   \<and> sync demo_crypto ''t1''
     \<lparr>body_merchantId = JStr ''M1'', body_vouchers = Some [Some voucher1, Some keyless_voucher]\<rparr>
     empty_db =
     (SyncResult [JStr ''v1'', JStr ''v2''] [] 2,
      db_after demo_crypto ''t1'' (JStr ''M1'') empty_db [voucher1, keyless_voucher])"
  by (simp add: sync_def keyless_voucher_def db1_def voucher1_def signed_voucher_def demo_sign_def
      demo_crypto_def empty_db_def syncVoucher_def invalidFormat_def userPubHex_def findUser_def
      findVoucher_def msgHashHex_def payload_of_def JSON_stringify_def JSON_property_def quote_def
      quote_char_def number_simps verifyDER_def autoRegister_def storeVoucher_def)

section \<open>Checks of one voucher\<close>

lemmas demo_simps =
  voucher1_def signed_voucher_def demo_sign_def demo_crypto_def empty_db_def db1_def
  syncVoucher_def invalidFormat_def userPubHex_def findUser_def findVoucher_def
  msgHashHex_def payload_of_def JSON_stringify_def JSON_property_def quote_def quote_char_def
  number_simps verifyDER_def autoRegister_def
  storeVoucher_def

lemma db1_reached: "syncVoucher demo_crypto ''t1'' (JStr ''M1'') empty_db voucher1 = (Synced (JStr ''v1''), db1)"
  by (simp add: demo_simps)

text \<open>
  C10. The checks of one voucher run in a fixed order (format, merchant, \<^verbatim>\<open>issuedTo\<close>,
  public key, signature, stored identifier) and the reason reported is that of the first
  check that fails, whatever the later ones would say. So a voucher whose identifier is
  already stored and whose signature does not verify is rejected as \<^verbatim>\<open>Bad signature\<close>, and
  \<^verbatim>\<open>Duplicate voucherId\<close> is reported only when every earlier check has passed.
\<close>

theorem check_order:
  fixes cr :: "'k crypto"
  shows
   "(invalidFormat v \<longrightarrow>
       syncVoucher cr now mid st v = (Rejected (voucherId v) ''Invalid format'', st))
  \<and> (\<not> invalidFormat v \<and> merchantId v \<noteq> mid \<longrightarrow>
       syncVoucher cr now mid st v = (Rejected (voucherId v) ''Wrong merchantId'', st))
  \<and> (\<not> invalidFormat v \<and> merchantId v = mid \<and> \<not> truthy (issuedTo v) \<longrightarrow>
       syncVoucher cr now mid st v = (Rejected (voucherId v) ''Missing issuedTo'', st))
  \<and> (\<not> invalidFormat v \<and> merchantId v = mid \<and> truthy (issuedTo v)
       \<and> \<not> truthy (userPubHex st v) \<longrightarrow>
       syncVoucher cr now mid st v = (Rejected (voucherId v) ''Missing public key in voucher'', st))
  \<and> (\<not> invalidFormat v \<and> merchantId v = mid \<and> truthy (issuedTo v) \<and> truthy (userPubHex st v)
       \<and> verifyDER cr (userPubHex st v) (msgHashHex cr v) (signature v) = BadSignature \<longrightarrow>
       syncVoucher cr now mid st v = (Rejected (voucherId v) ''Bad signature'', st))
  \<and> (\<not> invalidFormat v \<and> merchantId v = mid \<and> truthy (issuedTo v) \<and> truthy (userPubHex st v)
       \<and> verifyDER cr (userPubHex st v) (msgHashHex cr v) (signature v) = VerifyError \<longrightarrow>
       syncVoucher cr now mid st v = (Rejected (voucherId v) ''Signature verify error'', st))
  \<and> (passes_checks cr mid st v \<and> findVoucher st (voucherId v) \<noteq> None \<longrightarrow>
       syncVoucher cr now mid st v = (Rejected (voucherId v) ''Duplicate voucherId'', st))
  \<and> (fst (syncVoucher cr now mid st v) = Rejected i ''Duplicate voucherId'' \<longrightarrow>
       passes_checks cr mid st v \<and> findVoucher st (voucherId v) \<noteq> None)"
  by (auto simp: syncVoucher_def passes_checks_def split: verdict.splits if_splits)

theorem check_order_witness:
  "findVoucher db1 (voucherId tampered_voucher) \<noteq> None
   \<and> syncVoucher demo_crypto ''t2'' (JStr ''M1'') db1 tampered_voucher =
       (Rejected (JStr ''v1'') ''Bad signature'', db1)
   \<and> syncVoucher demo_crypto ''t2'' (JStr ''M1'') db1 voucher1 =
       (Rejected (JStr ''v1'') ''Duplicate voucherId'', db1)"
proof -
  have a: "\<not> invalidFormat tampered_voucher \<and> merchantId tampered_voucher = JStr ''M1''
      \<and> truthy (issuedTo tampered_voucher) \<and> truthy (userPubHex db1 tampered_voucher)
      \<and> verifyDER demo_crypto (userPubHex db1 tampered_voucher)
             (msgHashHex demo_crypto tampered_voucher) (signature tampered_voucher) = BadSignature"
    by (simp add: tampered_voucher_def demo_simps)
  have i: "voucherId tampered_voucher = JStr ''v1''" "voucherId voucher1 = JStr ''v1''"
    by (simp_all add: tampered_voucher_def voucher1_def signed_voucher_def)
  have c: "passes_checks demo_crypto (JStr ''M1'') db1 voucher1
      \<and> findVoucher db1 (voucherId voucher1) \<noteq> None"
    by (simp add: passes_checks_def demo_simps)
  have t: "syncVoucher demo_crypto ''t2'' (JStr ''M1'') db1 tampered_voucher =
       (Rejected (voucherId tampered_voucher) ''Bad signature'', db1)"
    using check_order [of tampered_voucher demo_crypto "''t2''" "JStr ''M1''" db1] a by blast
  have d: "syncVoucher demo_crypto ''t2'' (JStr ''M1'') db1 voucher1 =
       (Rejected (voucherId voucher1) ''Duplicate voucherId'', db1)"
    using check_order [of voucher1 demo_crypto "''t2''" "JStr ''M1''" db1] c by blast
  show ?thesis
    using t d c by (simp only: i) simp
qed

text \<open>
  C5 (as amended). For a voucher that reaches the verification, the failures of the
  library are reported under two reasons, not three: \<^verbatim>\<open>Signature verify error\<close> when the
  library throws, on the key or on the signature, and \<^verbatim>\<open>Bad signature\<close> when it answers
  false. Each is a rejection of that voucher alone: the database is unchanged and the loop
  goes on with the next voucher.
\<close>

theorem crypto_rejections:
  fixes cr :: "'k crypto"
  assumes "\<not> invalidFormat v" and "merchantId v = mid" and "truthy (issuedTo v)"
    and "truthy (userPubHex st v)"
  shows
   "(keyFromPublic cr (userPubHex st v) = None \<longrightarrow>
       syncVoucher cr now mid st v = (Rejected (voucherId v) ''Signature verify error'', st))
  \<and> (keyFromPublic cr (userPubHex st v) = Some key
       \<and> verify cr key (msgHashHex cr v) (signature v) = None \<longrightarrow>
       syncVoucher cr now mid st v = (Rejected (voucherId v) ''Signature verify error'', st))
  \<and> (keyFromPublic cr (userPubHex st v) = Some key
       \<and> verify cr key (msgHashHex cr v) (signature v) = Some False \<longrightarrow>
       syncVoucher cr now mid st v = (Rejected (voucherId v) ''Bad signature'', st))
  \<and> ''Bad signature'' \<noteq> ''Signature verify error''
  \<and> (is_rejected (fst (syncVoucher cr now mid st v)) \<longrightarrow>
       syncLoop cr now mid (Some v # vs) (st, ids, rej) =
         syncLoop cr now mid vs
           (st, ids, rej @ rejections_of [fst (syncVoucher cr now mid st v)]))"
  using assms by (auto simp: syncVoucher_def verifyDER_def split: verdict.splits)

theorem crypto_rejections_witness:
  "syncVoucher demo_crypto ''t1'' (JStr ''M1'') empty_db bad_key_voucher =
     (Rejected (voucherId bad_key_voucher) ''Signature verify error'', empty_db)
   \<and> syncVoucher demo_crypto ''t1'' (JStr ''M1'') empty_db bad_sig_voucher =
     (Rejected (voucherId bad_sig_voucher) ''Signature verify error'', empty_db)
   \<and> syncVoucher demo_crypto ''t1'' (JStr ''M1'') empty_db tampered_voucher =
     (Rejected (voucherId tampered_voucher) ''Bad signature'', empty_db)"
proof -
  have k: "\<not> invalidFormat bad_key_voucher" "merchantId bad_key_voucher = JStr ''M1''"
      "truthy (issuedTo bad_key_voucher)" "truthy (userPubHex empty_db bad_key_voucher)"
      "keyFromPublic demo_crypto (userPubHex empty_db bad_key_voucher) = None"
    by (simp_all add: bad_key_voucher_def demo_simps)
  have s: "\<not> invalidFormat bad_sig_voucher" "merchantId bad_sig_voucher = JStr ''M1''"
      "truthy (issuedTo bad_sig_voucher)" "truthy (userPubHex empty_db bad_sig_voucher)"
      "keyFromPublic demo_crypto (userPubHex empty_db bad_sig_voucher) = Some ''04aa''
       \<and> verify demo_crypto ''04aa'' (msgHashHex demo_crypto bad_sig_voucher)
            (signature bad_sig_voucher) = None"
    by (simp_all add: bad_sig_voucher_def demo_simps)
  have t: "\<not> invalidFormat tampered_voucher" "merchantId tampered_voucher = JStr ''M1''"
      "truthy (issuedTo tampered_voucher)" "truthy (userPubHex empty_db tampered_voucher)"
      "keyFromPublic demo_crypto (userPubHex empty_db tampered_voucher) = Some ''04aa''
       \<and> verify demo_crypto ''04aa'' (msgHashHex demo_crypto tampered_voucher)
            (signature tampered_voucher) = Some False"
    by (simp_all add: tampered_voucher_def demo_simps)
  have kk: "syncVoucher demo_crypto ''t1'' (JStr ''M1'') empty_db bad_key_voucher =
     (Rejected (voucherId bad_key_voucher) ''Signature verify error'', empty_db)"
    using crypto_rejections [OF k(1-4), of demo_crypto "''t1''" "''04aa''", THEN conjunct1] k(5)
    by (rule mp)
  have ss: "syncVoucher demo_crypto ''t1'' (JStr ''M1'') empty_db bad_sig_voucher =
     (Rejected (voucherId bad_sig_voucher) ''Signature verify error'', empty_db)"
    using crypto_rejections [OF s(1-4), of demo_crypto "''t1''" "''04aa''",
        THEN conjunct2, THEN conjunct1] s(5)
    by (rule mp)
  have tt: "syncVoucher demo_crypto ''t1'' (JStr ''M1'') empty_db tampered_voucher =
     (Rejected (voucherId tampered_voucher) ''Bad signature'', empty_db)"
    using crypto_rejections [OF t(1-4), of demo_crypto "''t1''" "''04aa''",
        THEN conjunct2, THEN conjunct2, THEN conjunct1] t(5)
    by (rule mp)
  show ?thesis
    using kk ss tt by (intro conjI)
qed

text \<open>
  An unparseable key and an unparseable signature are two of the three failures that C5
  tells apart; both are reported as \<^verbatim>\<open>Signature verify error\<close>.
\<close>

theorem crypto_reasons_coincide:
  "keyFromPublic demo_crypto (userPubHex empty_db bad_key_voucher) = None
   \<and> syncVoucher demo_crypto ''t1'' (JStr ''M1'') empty_db bad_key_voucher =
       (Rejected (JStr ''v1'') ''Signature verify error'', empty_db)
   \<and> keyFromPublic demo_crypto (userPubHex empty_db bad_sig_voucher) = Some ''04aa''
   \<and> verify demo_crypto ''04aa'' (msgHashHex demo_crypto bad_sig_voucher) (signature bad_sig_voucher)
       = None
   \<and> syncVoucher demo_crypto ''t1'' (JStr ''M1'') empty_db bad_sig_voucher =
       (Rejected (JStr ''v1'') ''Signature verify error'', empty_db)"
  by (simp add: bad_key_voucher_def bad_sig_voucher_def demo_simps)

text \<open>
  C4. The format check asks for a number, not for a positive one: a voucher with a
  negative amount and a voucher with amount zero, each carrying a signature that verifies,
  are both admitted and stored.
\<close>

theorem nonpositive_amount_admitted:
  "fst (sync demo_crypto ''t1''
          \<lparr>body_merchantId = JStr ''M1'',
           body_vouchers = Some [Some (signed_voucher ''v8'' ''M1'' (- 5) ''u1'' ''04aa'' (JStr ''04aa'')),
                                 Some (signed_voucher ''v9'' ''M1'' 0 ''u1'' ''04aa'' (JStr ''04aa''))]\<rparr>
          empty_db) = SyncResult [JStr ''v8'', JStr ''v9''] [] 2
   \<and> map amount (vouchers (snd (sync demo_crypto ''t1''
          \<lparr>body_merchantId = JStr ''M1'',
           body_vouchers = Some [Some (signed_voucher ''v8'' ''M1'' (- 5) ''u1'' ''04aa'' (JStr ''04aa'')),
                                 Some (signed_voucher ''v9'' ''M1'' 0 ''u1'' ''04aa'' (JStr ''04aa''))]\<rparr>
          empty_db))) = [JNum (- 5), JNum 0]"
  by (simp add: sync_def demo_simps)

text \<open>The rest of the structural validation rejects and leaves the database unchanged.\<close>

lemma structural_rejections:
  fixes cr :: "'k crypto"
  shows
   "(\<not> truthy (voucherId v) \<or> \<not> truthy (merchantId v) \<or> typeof (amount v) \<noteq> ''number''
       \<or> \<not> truthy (signature v) \<longrightarrow>
       syncVoucher cr now mid st v = (Rejected (voucherId v) ''Invalid format'', st))
  \<and> (\<not> invalidFormat v \<and> merchantId v \<noteq> mid \<longrightarrow>
       syncVoucher cr now mid st v = (Rejected (voucherId v) ''Wrong merchantId'', st))
  \<and> (\<not> invalidFormat v \<and> merchantId v = mid \<and> \<not> truthy (issuedTo v) \<longrightarrow>
       syncVoucher cr now mid st v = (Rejected (voucherId v) ''Missing issuedTo'', st))"
  by (auto simp: syncVoucher_def invalidFormat_def)

section \<open>Key records\<close>

lemma find_append_Some: "find P xs = Some u \<Longrightarrow> find P (xs @ ys) = Some u"
  by (induction xs) (auto split: if_splits)

lemma find_append_None: "find P xs = None \<Longrightarrow> find P (xs @ ys) = find P ys"
  by (induction xs) (auto split: if_splits)

lemma findUser_autoRegister_kept:
  "findUser st uid = Some u \<Longrightarrow> findUser (autoRegister now st uid' pub) uid = Some u"
  by (simp add: autoRegister_def findUser_def find_append_Some)

lemma findUser_storeVoucher [simp]: "findUser (storeVoucher now mid st v) uid = findUser st uid"
  by (simp add: findUser_def storeVoucher_def)

lemma findUser_step_kept:
  assumes "findUser st uid = Some u"
  shows "findUser (snd (syncVoucher cr now mid st v)) uid = Some u"
  using assms
  by (auto simp: syncVoucher_def findUser_autoRegister_kept split: verdict.splits)

lemma findUser_db_after_kept:
  "findUser st uid = Some u \<Longrightarrow> findUser (db_after cr now mid st vs) uid = Some u"
  by (induction vs arbitrary: st) (simp_all add: findUser_step_kept)

lemma snd_sync:
  "snd (sync cr now body st) = st
   \<or> (\<exists>vs. snd (sync cr now body st) = db_after cr now (body_merchantId body) st vs)"
  by (auto simp: sync_def syncLoop_outcomes split: option.splits)

lemma findUser_sync_kept:
  "findUser st uid = Some u \<Longrightarrow> findUser (snd (sync cr now body st)) uid = Some u"
  using snd_sync [of cr now body st] by (auto simp: findUser_db_after_kept)

lemma syncAll_Cons:
  "syncAll cr (req # reqs) st =
     (fst (sync cr (fst req) (snd req) st) # fst (syncAll cr reqs (snd (sync cr (fst req) (snd req) st))),
      snd (syncAll cr reqs (snd (sync cr (fst req) (snd req) st))))"
  by (cases req) (simp split: prod.splits)

lemma findUser_syncAll_kept:
  "findUser st uid = Some u \<Longrightarrow> findUser (snd (syncAll cr reqs st)) uid = Some u"
proof (induction reqs arbitrary: st)
  case Nil
  then show ?case by simp
next
  case (Cons req reqs)
  from Cons.prems have "findUser (snd (sync cr (fst req) (snd req) st)) uid = Some u"
    by (rule findUser_sync_kept)
  then show ?case
    by (simp only: syncAll_Cons snd_conv Cons.IH)
qed

lemma userPubHex_inline: "truthy (publicKeyHex v) \<Longrightarrow> userPubHex st v = publicKeyHex v"
  by (simp add: userPubHex_def)

lemma userPubHex_stored:
  "\<not> truthy (publicKeyHex w) \<Longrightarrow> findUser st (issuedTo w) = Some u \<Longrightarrow>
   userPubHex st w = user_publicKeyHex u"
  by (simp add: userPubHex_def)

lemma syncVoucher_key_only:
  assumes "userPubHex st w = userPubHex st w'" and "payload_of w = payload_of w'"
    and "signature w = signature w'"
  shows "syncVoucher cr now mid st w = syncVoucher cr now mid st w'"
proof -
  from assms(2) have f: "voucherId w = voucherId w'" "merchantId w = merchantId w'"
      "amount w = amount w'" "createdAt w = createdAt w'" "issuedTo w = issuedTo w'"
    by (simp_all add: payload_of_def)
  have "invalidFormat w = invalidFormat w'"
    by (simp add: invalidFormat_def f assms(3))
  moreover have "msgHashHex cr w = msgHashHex cr w'"
    by (simp add: msgHashHex_def assms(2))
  moreover have "storeVoucher now mid s w = storeVoucher now mid s w'" for s
    by (simp add: storeVoucher_def f assms(3))
  ultimately show ?thesis
    by (auto simp: syncVoucher_def f assms(1,3) split: verdict.splits)
qed

text \<open>
  C6 (as amended). When a voucher of an identity with no user record carries its own key,
  passes every check and its identifier is not yet stored, it is admitted and a user
  record binding \<^verbatim>\<open>issuedTo\<close> to that key is created. Whatever requests are served
  afterwards, a voucher of the same identity without a key is then checked against the
  stored key: it is treated exactly as if it carried that key.
\<close>

theorem key_auto_provisioning:
  fixes cr :: "'k crypto" and now :: string and mid :: jsval and st :: db and v :: voucher
    and reqs :: "(string \<times> sync_body) list"
  assumes "passes_checks cr mid st v" and "truthy (publicKeyHex v)"
    and "findUser st (issuedTo v) = None" and "findVoucher st (voucherId v) = None"
    and "issuedTo w = issuedTo v" and "\<not> truthy (publicKeyHex w)"
  defines "st' \<equiv> snd (syncAll cr reqs (snd (syncVoucher cr now mid st v)))"
  shows "fst (syncVoucher cr now mid st v) = Synced (voucherId v)
       \<and> findUser (snd (syncVoucher cr now mid st v)) (issuedTo v) =
           Some \<lparr>userId = issuedTo v, user_publicKeyHex = publicKeyHex v, registeredAt = now,
                 balance = None, balanceHistory = []\<rparr>
       \<and> userPubHex st' w = publicKeyHex v
       \<and> syncVoucher cr now' mid' st' w =
           syncVoucher cr now' mid' st' (w\<lparr>publicKeyHex := publicKeyHex v\<rparr>)"
proof -
  let ?u = "\<lparr>userId = issuedTo v, user_publicKeyHex = publicKeyHex v, registeredAt = now,
             balance = None, balanceHistory = []\<rparr>"
  have step: "syncVoucher cr now mid st v =
      (Synced (voucherId v), storeVoucher now mid (autoRegister now st (issuedTo v) (userPubHex st v)) v)"
    using assms(1,4) by (rule syncVoucher_admits)
  have reg: "findUser (snd (syncVoucher cr now mid st v)) (issuedTo v) = Some ?u"
    using assms(2,3)
    by (simp add: step userPubHex_inline autoRegister_def findUser_def find_append_None)
  then have later: "findUser st' (issuedTo w) = Some ?u"
    unfolding st'_def assms(5) by (rule findUser_syncAll_kept)
  have key: "userPubHex st' w = publicKeyHex v"
    using userPubHex_stored [OF assms(6) later] by simp
  have same: "syncVoucher cr now' mid' st' w =
           syncVoucher cr now' mid' st' (w\<lparr>publicKeyHex := publicKeyHex v\<rparr>)"
  proof (rule syncVoucher_key_only)
    show "userPubHex st' w = userPubHex st' (w\<lparr>publicKeyHex := publicKeyHex v\<rparr>)"
      using assms(2) by (simp add: key userPubHex_inline)
  qed (simp_all add: payload_of_def)
  show ?thesis
    using step reg key same by simp
qed

theorem key_auto_provisioning_witness:
  "syncVoucher demo_crypto ''t1'' (JStr ''M1'') empty_db voucher1 = (Synced (JStr ''v1''), db1)
   \<and> findUser db1 (JStr ''u1'') =
       Some \<lparr>userId = JStr ''u1'', user_publicKeyHex = JStr ''04aa'', registeredAt = ''t1'',
             balance = None, balanceHistory = []\<rparr>
   \<and> userPubHex db1 keyless_voucher = JStr ''04aa''
   \<and> fst (syncVoucher demo_crypto ''t2'' (JStr ''M1'') db1 keyless_voucher) = Synced (JStr ''v2'')
   \<and> fst (syncVoucher demo_crypto ''t2'' (JStr ''M1'') db1
            (keyless_voucher\<lparr>publicKeyHex := JStr ''04aa''\<rparr>)) = Synced (JStr ''v2'')"
proof -
  have p: "passes_checks demo_crypto (JStr ''M1'') empty_db voucher1"
    by (simp add: passes_checks_def demo_simps)
  have k: "truthy (publicKeyHex voucher1)" "publicKeyHex voucher1 = JStr ''04aa''"
      "issuedTo voucher1 = JStr ''u1''"
    by (simp_all add: voucher1_def signed_voucher_def)
  have u: "findUser empty_db (issuedTo voucher1) = None"
    by (simp add: findUser_def empty_db_def)
  have n: "findVoucher empty_db (voucherId voucher1) = None"
    by (simp add: findVoucher_def empty_db_def)
  have i: "issuedTo keyless_voucher = issuedTo voucher1"
    by (simp add: keyless_voucher_def voucher1_def signed_voucher_def)
  have l: "\<not> truthy (publicKeyHex keyless_voucher)"
    by (simp add: keyless_voucher_def signed_voucher_def)
  have s: "syncVoucher demo_crypto ''t1'' (JStr ''M1'') empty_db voucher1 = (Synced (JStr ''v1''), db1)"
    by (rule db1_reached)
  have w: "fst (syncVoucher demo_crypto ''t2'' (JStr ''M1'') db1 keyless_voucher) = Synced (JStr ''v2'')"
    by (simp add: keyless_voucher_def demo_simps)
  note t = key_auto_provisioning [OF p k(1) u n i l, where reqs = "[]" and now = "''t1''"
        and now' = "''t2''" and mid' = "JStr ''M1''"]
  from t have e: "syncVoucher demo_crypto ''t2'' (JStr ''M1'') db1 keyless_voucher =
      syncVoucher demo_crypto ''t2'' (JStr ''M1'') db1 (keyless_voucher\<lparr>publicKeyHex := JStr ''04aa''\<rparr>)"
    by (simp add: s k)
  have w2: "fst (syncVoucher demo_crypto ''t2'' (JStr ''M1'') db1
            (keyless_voucher\<lparr>publicKeyHex := JStr ''04aa''\<rparr>)) = Synced (JStr ''v2'')"
    unfolding e [symmetric] by (rule w)
  from t have r: "findUser db1 (JStr ''u1'') =
       Some \<lparr>userId = JStr ''u1'', user_publicKeyHex = JStr ''04aa'', registeredAt = ''t1'',
             balance = None, balanceHistory = []\<rparr>"
      and x: "userPubHex db1 keyless_voucher = JStr ''04aa''"
    by (simp_all add: s k)
  show ?thesis
    using s r x w w2 by (intro conjI)
qed

text \<open>
  A voucher of the unseen identity \<^verbatim>\<open>u2\<close> carries its key and its signature verifies, but
  its identifier is already stored: it is rejected as a duplicate before the user record
  is written, so a later voucher of \<^verbatim>\<open>u2\<close> without a key finds none.
\<close>

theorem duplicate_registers_no_key:
  "findUser db1 (JStr ''u2'') = None
   \<and> truthy (publicKeyHex voucher_u2)
   \<and> verifyDER demo_crypto (publicKeyHex voucher_u2) (msgHashHex demo_crypto voucher_u2)
        (signature voucher_u2) = SignatureOk
   \<and> syncVoucher demo_crypto ''t2'' (JStr ''M1'') db1 voucher_u2 =
        (Rejected (JStr ''v1'') ''Duplicate voucherId'', db1)
   \<and> syncVoucher demo_crypto ''t3'' (JStr ''M1'') db1
        (signed_voucher ''v3'' ''M1'' 5 ''u2'' ''04bb'' JUndefined) =
        (Rejected (JStr ''v3'') ''Missing public key in voucher'', db1)"
  by (simp add: voucher_u2_def demo_simps)

section \<open>Uniqueness of the voucher identifier\<close>

lemma stored_zero_iff: "stored st x = 0 \<longleftrightarrow> findVoucher st x = None"
  by (auto simp: stored_def findVoucher_def find_None_iff filter_empty_conv)

lemma stored_step:
  "stored (snd (syncVoucher cr now mid st v)) x =
     stored st x + count_list (synced_of [fst (syncVoucher cr now mid st v)]) x"
  by (auto simp: syncVoucher_def storeVoucher_def stored_def split: verdict.splits)

lemma stored_db_after:
  "stored (db_after cr now mid st vs) x =
     stored st x + count_list (synced_of (outcomes cr now mid st vs)) x"
proof (induction vs arbitrary: st)
  case Nil
  then show ?case by simp
next
  case (Cons v vs)
  show ?case
    using Cons.IH [of "snd (syncVoucher cr now mid st v)"] stored_step [of cr now mid st v x]
      synced_of_Cons [of "fst (syncVoucher cr now mid st v)"
        "outcomes cr now mid (snd (syncVoucher cr now mid st v)) vs"]
    by simp
qed

lemma reported_sync:
  "synced_ids (fst (sync cr now body st)) =
     (if is_500 (fst (sync cr now body st)) then []
      else synced_of (outcomes cr now (body_merchantId body) st (processed body)))"
  by (simp add: sync_def processed_def syncLoop_outcomes split: option.splits)

lemma stored_sync:
  "stored (snd (sync cr now body st)) x =
     stored st x
     + count_list (synced_of (outcomes cr now (body_merchantId body) st (processed body))) x"
  by (simp add: snd_sync_processed stored_db_after)

lemma admissions_Cons:
  "admissions cr (req # reqs) st =
     synced_of (outcomes cr (fst req) (body_merchantId (snd req)) st (processed (snd req)))
     @ admissions cr reqs (snd (sync cr (fst req) (snd req) st))"
  by (cases req) simp

lemma stored_syncAll:
  "stored (snd (syncAll cr reqs st)) x = stored st x + count_list (admissions cr reqs st) x"
proof (induction reqs arbitrary: st)
  case Nil
  then show ?case by simp
next
  case (Cons req reqs)
  show ?case
    using Cons.IH [of "snd (sync cr (fst req) (snd req) st)"]
      stored_sync [of cr "fst req" "snd req" st x]
    by (simp add: syncAll_Cons admissions_Cons)
qed

lemma reported_le:
  "count_list (concat (map synced_ids (fst (syncAll cr reqs st)))) x
     \<le> count_list (admissions cr reqs st) x"
proof (induction reqs arbitrary: st)
  case Nil
  then show ?case by simp
next
  case (Cons req reqs)
  have "count_list (synced_ids (fst (sync cr (fst req) (snd req) st))) x
      \<le> count_list
          (synced_of (outcomes cr (fst req) (body_merchantId (snd req)) st (processed (snd req)))) x"
    by (simp add: reported_sync [of cr "fst req" "snd req" st])
  then show ?case
    using Cons.IH [of "snd (sync cr (fst req) (snd req) st)"]
    by (simp add: syncAll_Cons admissions_Cons)
qed

lemma reported_eq:
  "\<not> list_ex is_500 (fst (syncAll cr reqs st)) \<Longrightarrow>
   concat (map synced_ids (fst (syncAll cr reqs st))) = admissions cr reqs st"
proof (induction reqs arbitrary: st)
  case Nil
  then show ?case by simp
next
  case (Cons req reqs)
  from Cons.prems have a: "\<not> is_500 (fst (sync cr (fst req) (snd req) st))"
    and b: "\<not> list_ex is_500 (fst (syncAll cr reqs (snd (sync cr (fst req) (snd req) st))))"
    by (simp_all add: syncAll_Cons)
  show ?case
    using Cons.IH [OF b] a reported_sync [of cr "fst req" "snd req" st]
    by (simp add: syncAll_Cons admissions_Cons)
qed

lemma step_present:
  assumes "findVoucher st x \<noteq> None"
  shows "count_list (synced_of [fst (syncVoucher cr now mid st v)]) x = 0
       \<and> findVoucher (snd (syncVoucher cr now mid st v)) x \<noteq> None"
proof -
  have c: "count_list (synced_of [fst (syncVoucher cr now mid st v)]) x = 0"
    using assms by (auto simp: syncVoucher_def split: verdict.splits)
  have "stored st x \<noteq> 0"
    using assms by (simp add: stored_zero_iff)
  then have "stored (snd (syncVoucher cr now mid st v)) x \<noteq> 0"
    by (simp add: stored_step)
  with c show ?thesis by (simp add: stored_zero_iff)
qed

lemma step_at_most_one:
  assumes "stored st x \<le> 1"
  shows "stored (snd (syncVoucher cr now mid st v)) x \<le> 1"
proof (cases "findVoucher st x = None")
  case True
  then have "stored st x = 0" by (simp add: stored_zero_iff)
  moreover have "count_list (synced_of [fst (syncVoucher cr now mid st v)]) x \<le> 1"
    by (cases "fst (syncVoucher cr now mid st v)") simp_all
  ultimately show ?thesis by (simp add: stored_step)
next
  case False
  then show ?thesis
    using step_present [of st x cr now mid v] assms by (simp add: stored_step)
qed

lemma db_after_at_most_one:
  "stored st x \<le> 1 \<Longrightarrow> stored (db_after cr now mid st vs) x \<le> 1"
proof (induction vs arbitrary: st)
  case Nil
  then show ?case by simp
next
  case (Cons v vs)
  from Cons.prems have "stored (snd (syncVoucher cr now mid st v)) x \<le> 1"
    by (rule step_at_most_one)
  then have "stored (db_after cr now mid (snd (syncVoucher cr now mid st v)) vs) x \<le> 1"
    by (rule Cons.IH)
  then show ?case by (simp only: db_after.simps)
qed

lemma sync_at_most_one:
  "stored st x \<le> 1 \<Longrightarrow> stored (snd (sync cr now body st)) x \<le> 1"
  using snd_sync [of cr now body st] db_after_at_most_one [of st x cr now "body_merchantId body"]
  by (elim disjE exE) simp_all

lemma syncAll_at_most_one:
  "stored st x \<le> 1 \<Longrightarrow> stored (snd (syncAll cr reqs st)) x \<le> 1"
proof (induction reqs arbitrary: st)
  case Nil
  then show ?case by simp
next
  case (Cons req reqs)
  from Cons.prems have "stored (snd (sync cr (fst req) (snd req) st)) x \<le> 1"
    by (rule sync_at_most_one)
  then show ?case
    by (simp only: syncAll_Cons snd_conv Cons.IH)
qed

lemma db_after_present:
  "findVoucher st x \<noteq> None \<Longrightarrow>
   count_list (synced_of (outcomes cr now mid st vs)) x = 0
   \<and> findVoucher (db_after cr now mid st vs) x \<noteq> None"
proof (induction vs arbitrary: st)
  case Nil
  then show ?case by simp
next
  case (Cons v vs)
  note s = step_present [OF Cons.prems, of cr now mid v]
  then have "count_list (synced_of (outcomes cr now mid (snd (syncVoucher cr now mid st v)) vs)) x = 0
      \<and> findVoucher (db_after cr now mid (snd (syncVoucher cr now mid st v)) vs) x \<noteq> None"
    using Cons.IH [of "snd (syncVoucher cr now mid st v)"] by blast
  then show ?case
    using s synced_of_Cons [of "fst (syncVoucher cr now mid st v)"
        "outcomes cr now mid (snd (syncVoucher cr now mid st v)) vs"]
    by simp
qed

lemma sync_present:
  "findVoucher st x \<noteq> None \<Longrightarrow>
   count_list (synced_of (outcomes cr now (body_merchantId body) st (processed body))) x = 0
   \<and> findVoucher (snd (sync cr now body st)) x \<noteq> None"
  using db_after_present [of st x cr now "body_merchantId body" "processed body"]
  by (simp add: snd_sync_processed)

lemma syncAll_present:
  "findVoucher st x \<noteq> None \<Longrightarrow> count_list (admissions cr reqs st) x = 0"
proof (induction reqs arbitrary: st)
  case Nil
  then show ?case by simp
next
  case (Cons req reqs)
  note s = sync_present [OF Cons.prems, of cr "fst req" "snd req"]
  then show ?case
    using Cons.IH [of "snd (sync cr (fst req) (snd req) st)"] by (simp add: admissions_Cons)
qed

text \<open>
  C1 (as amended). Over any sequence of sync requests served one after another, the number
  of stored vouchers with a given identifier grows by the number of times the identifier
  is admitted; that is at most once when the identifier was not stored before and never
  when it was. The responses report every admission, except those of a request that ends
  with status 500, so an identifier is reported as synced at most as often. A submission
  whose identifier is already stored is rejected and leaves the database unchanged, with
  the reason \<^verbatim>\<open>Duplicate voucherId\<close> when it passes the checks that come first; the first
  submission that passes them while the identifier is not stored is admitted and stored
  once.
\<close>

theorem voucherId_admitted_once:
  fixes cr :: "'k crypto"
  shows
   "stored (snd (syncAll cr reqs st)) x = stored st x + count_list (admissions cr reqs st) x
  \<and> count_list (concat (map synced_ids (fst (syncAll cr reqs st)))) x
       \<le> count_list (admissions cr reqs st) x
  \<and> (\<not> list_ex is_500 (fst (syncAll cr reqs st)) \<longrightarrow>
        concat (map synced_ids (fst (syncAll cr reqs st))) = admissions cr reqs st
        \<and> stored (snd (syncAll cr reqs st)) x =
            stored st x + count_list (concat (map synced_ids (fst (syncAll cr reqs st)))) x)
  \<and> (stored st x \<le> 1 \<longrightarrow> stored (snd (syncAll cr reqs st)) x \<le> 1)
  \<and> (findVoucher st x = None \<longrightarrow>
        count_list (admissions cr reqs st) x \<le> 1
        \<and> count_list (concat (map synced_ids (fst (syncAll cr reqs st)))) x \<le> 1)
  \<and> (findVoucher st x \<noteq> None \<longrightarrow>
        count_list (admissions cr reqs st) x = 0
        \<and> count_list (concat (map synced_ids (fst (syncAll cr reqs st)))) x = 0)
  \<and> (findVoucher st (voucherId v) \<noteq> None \<longrightarrow>
        is_rejected (fst (syncVoucher cr now mid st v)) \<and> snd (syncVoucher cr now mid st v) = st)
  \<and> (findVoucher st (voucherId v) \<noteq> None \<and> passes_checks cr mid st v \<longrightarrow>
        syncVoucher cr now mid st v = (Rejected (voucherId v) ''Duplicate voucherId'', st))
  \<and> (findVoucher st (voucherId v) = None \<and> passes_checks cr mid st v \<longrightarrow>
        fst (syncVoucher cr now mid st v) = Synced (voucherId v)
        \<and> stored (snd (syncVoucher cr now mid st v)) (voucherId v) = 1)"
proof -
  have a: "findVoucher st (voucherId v) \<noteq> None \<longrightarrow>
        is_rejected (fst (syncVoucher cr now mid st v)) \<and> snd (syncVoucher cr now mid st v) = st"
    using syncVoucher_present [of st v cr now mid]
      syncVoucher_rejected_unchanged [of cr now mid st v] by blast
  have b: "findVoucher st (voucherId v) \<noteq> None \<and> passes_checks cr mid st v \<longrightarrow>
        syncVoucher cr now mid st v = (Rejected (voucherId v) ''Duplicate voucherId'', st)"
    using syncVoucher_duplicate [of cr mid st v now] by blast
  have c: "findVoucher st (voucherId v) = None \<and> passes_checks cr mid st v \<longrightarrow>
        fst (syncVoucher cr now mid st v) = Synced (voucherId v)
        \<and> stored (snd (syncVoucher cr now mid st v)) (voucherId v) = 1"
  proof (intro impI, elim conjE)
    assume n: "findVoucher st (voucherId v) = None" and p: "passes_checks cr mid st v"
    then have s: "fst (syncVoucher cr now mid st v) = Synced (voucherId v)"
      by (simp add: syncVoucher_Synced_iff)
    from n have "stored st (voucherId v) = 0" by (simp add: stored_zero_iff)
    with s show "fst (syncVoucher cr now mid st v) = Synced (voucherId v)
        \<and> stored (snd (syncVoucher cr now mid st v)) (voucherId v) = 1"
      by (simp add: stored_step)
  qed
  note le = reported_le [of cr reqs st x]
  have d: "findVoucher st x = None \<longrightarrow>
        count_list (admissions cr reqs st) x \<le> 1
        \<and> count_list (concat (map synced_ids (fst (syncAll cr reqs st)))) x \<le> 1"
  proof
    assume "findVoucher st x = None"
    then have z: "stored st x = 0" by (simp add: stored_zero_iff)
    then have "stored (snd (syncAll cr reqs st)) x \<le> 1"
      using syncAll_at_most_one [of st x cr reqs] by simp
    then have "count_list (admissions cr reqs st) x \<le> 1"
      using stored_syncAll [of cr reqs st x] z by simp
    with le show "count_list (admissions cr reqs st) x \<le> 1
        \<and> count_list (concat (map synced_ids (fst (syncAll cr reqs st)))) x \<le> 1"
      by simp
  qed
  have e: "findVoucher st x \<noteq> None \<longrightarrow>
        count_list (admissions cr reqs st) x = 0
        \<and> count_list (concat (map synced_ids (fst (syncAll cr reqs st)))) x = 0"
    using syncAll_present [of st x cr reqs] le by auto
  have f: "\<not> list_ex is_500 (fst (syncAll cr reqs st)) \<longrightarrow>
        concat (map synced_ids (fst (syncAll cr reqs st))) = admissions cr reqs st
        \<and> stored (snd (syncAll cr reqs st)) x =
            stored st x + count_list (concat (map synced_ids (fst (syncAll cr reqs st)))) x"
    using reported_eq [of cr reqs st] stored_syncAll [of cr reqs st x] by simp
  have g: "stored st x \<le> 1 \<longrightarrow> stored (snd (syncAll cr reqs st)) x \<le> 1"
    using syncAll_at_most_one [of st x cr reqs] by blast
  show ?thesis
    using stored_syncAll [of cr reqs st x] le a b c d e f g by (intro conjI)
qed

lemma requests1_run:
  "syncAll demo_crypto requests1 empty_db =
     ([SyncResult [JStr ''v1'']
         [\<lparr>rejected_voucherId = JStr ''v1'', reason = ''Duplicate voucherId''\<rparr>] 1,
       SyncResult [] [\<lparr>rejected_voucherId = JStr ''v1'', reason = ''Wrong merchantId''\<rparr>] 1,
       SyncResult [] [\<lparr>rejected_voucherId = JStr ''v1'', reason = ''Bad signature''\<rparr>] 1],
      db1)"
  by (simp add: requests1_def sync_def tampered_voucher_def demo_simps)

lemma requests2_run:
  "fst (syncAll demo_crypto requests2 empty_db) =
     [Status500 ''Database error'',
      SyncResult [] [\<lparr>rejected_voucherId = JStr ''v1'', reason = ''Duplicate voucherId''\<rparr>] 1]
   \<and> admissions demo_crypto requests2 empty_db = [JStr ''v1'']"
  by (simp add: requests2_def sync_def processed_def demo_simps)

theorem voucherId_admitted_once_witness:
  "stored empty_db (JStr ''v1'') = 0
   \<and> concat (map synced_ids (fst (syncAll demo_crypto requests1 empty_db))) = [JStr ''v1'']
   \<and> stored (snd (syncAll demo_crypto requests1 empty_db)) (JStr ''v1'') = 1
   \<and> concat (map synced_ids (fst (syncAll demo_crypto requests2 empty_db))) = []
   \<and> stored (snd (syncAll demo_crypto requests2 empty_db)) (JStr ''v1'') = 1
   \<and> syncVoucher demo_crypto ''t4'' (JStr ''M1'') db1 voucher1 =
       (Rejected (JStr ''v1'') ''Duplicate voucherId'', db1)"
proof -
  have z: "stored empty_db (JStr ''v1'') = 0"
    by (simp add: stored_def empty_db_def)
  have r: "concat (map synced_ids (fst (syncAll demo_crypto requests1 empty_db))) = [JStr ''v1'']"
    by (simp add: requests1_run)
  have n: "\<not> list_ex is_500 (fst (syncAll demo_crypto requests1 empty_db))"
    by (simp add: requests1_run)
  have r2: "concat (map synced_ids (fst (syncAll demo_crypto requests2 empty_db))) = []"
    by (simp add: requests2_run)
  have a2: "admissions demo_crypto requests2 empty_db = [JStr ''v1'']"
    by (simp add: requests2_run)
  have c: "passes_checks demo_crypto (JStr ''M1'') db1 voucher1
      \<and> findVoucher db1 (voucherId voucher1) \<noteq> None"
    by (simp add: passes_checks_def demo_simps)
  have i: "voucherId voucher1 = JStr ''v1''"
    by (simp add: voucher1_def signed_voucher_def)
  note t = voucherId_admitted_once [where cr = demo_crypto and reqs = requests1
      and st = empty_db and x = "JStr ''v1''"]
  note t2 = voucherId_admitted_once [where cr = demo_crypto and reqs = requests2
      and st = empty_db and x = "JStr ''v1''"]
  note t' = voucherId_admitted_once [where cr = demo_crypto and st = db1 and v = voucher1
      and now = "''t4''" and mid = "JStr ''M1''"]
  from t n have ad: "concat (map synced_ids (fst (syncAll demo_crypto requests1 empty_db))) =
      admissions demo_crypto requests1 empty_db"
    by blast
  from t have s: "stored (snd (syncAll demo_crypto requests1 empty_db)) (JStr ''v1'') = 1"
    unfolding ad [symmetric] r z by simp
  from t2 have s2: "stored (snd (syncAll demo_crypto requests2 empty_db)) (JStr ''v1'') = 1"
    unfolding a2 z by simp
  from t' c have d: "syncVoucher demo_crypto ''t4'' (JStr ''M1'') db1 voucher1 =
       (Rejected (voucherId voucher1) ''Duplicate voucherId'', db1)"
    by blast
  show ?thesis
    using z r s r2 s2 d unfolding i by (intro conjI)
qed

text \<open>
  Two later submissions of a stored identifier that are rejected under another reason
  than \<^verbatim>\<open>Duplicate voucherId\<close>: the same voucher sent by another merchant, and the voucher
  with its amount changed.
\<close>

theorem resubmission_other_reason:
  "findVoucher db1 (voucherId voucher1) \<noteq> None
   \<and> sync demo_crypto ''t2''
       \<lparr>body_merchantId = JStr ''M2'', body_vouchers = Some [Some voucher1]\<rparr> db1 =
       (SyncResult [] [\<lparr>rejected_voucherId = JStr ''v1'', reason = ''Wrong merchantId''\<rparr>] 1, db1)
   \<and> findVoucher db1 (voucherId tampered_voucher) \<noteq> None
   \<and> sync demo_crypto ''t3''
       \<lparr>body_merchantId = JStr ''M1'', body_vouchers = Some [Some tampered_voucher]\<rparr> db1 =
       (SyncResult [] [\<lparr>rejected_voucherId = JStr ''v1'', reason = ''Bad signature''\<rparr>] 1, db1)"
  by (simp add: sync_def tampered_voucher_def demo_simps)

end
